theory Spec2Isabelle
  imports Complex_Main "HOL-Library.Word" "HOL-Library.Log_Nat"
begin

section \<open>gltext: a glyph atlas and a text renderer (font.go)\<close>

text \<open>
  A shallow embedding of \<^verbatim>\<open>font.go\<close>. The atlas builder \<^verbatim>\<open>generateAtlas\<close> and the
  draw and teardown operations \<^verbatim>\<open>Printf\<close> and \<^verbatim>\<open>Delete\<close> are translated statement by
  statement. The collaborators outside the repository (the TrueType font, \<^verbatim>\<open>glh.Pow2\<close>,
  the OpenGL binding) are parameters or small models of their documented behaviour.
\<close>

subsection \<open>Machine integers\<close>

type_synonym int32 = "32 word"
type_synonym uint32 = "32 word"
type_synonym uint16 = "16 word"
type_synonym rune = "32 word" \<comment> \<open>Go: \<^verbatim>\<open>rune\<close> is an alias of \<^verbatim>\<open>int32\<close>; read with \<open>sint\<close>\<close>

subsection \<open>IEEE 754 binary32 arithmetic (Go's \<^verbatim>\<open>float32\<close>)\<close>

text \<open>
  A floating-point value is a NaN, a signed infinity or a signed finite magnitude (the
  flag is the sign bit, so \<open>Fin True 0\<close> is the negative zero). The payload of a NaN is
  not modelled. Every operation computes the exact rational result and rounds it to the
  nearest binary32 value, ties to even, as Go's \<^verbatim>\<open>float32\<close> operators do when each
  operation is rounded on its own.
\<close>

datatype ieee = NaN | Inf bool | Fin bool rat

type_synonym float32 = ieee
type_synonym float64 = ieee \<comment> \<open>only passed through, never computed with\<close>

definition pow2 :: "int \<Rightarrow> rat" where
  "pow2 e = (if 0 \<le> e then 2 ^ nat e else inverse (2 ^ nat (- e)))"

text \<open>The exponent \<open>e\<close> with \<open>2^e \<le> q < 2^(e+1)\<close> of a positive rational.\<close>

definition binade :: "rat \<Rightarrow> int" where
  "binade q = (let (p, d) = quotient_of q; k = bitlen p - bitlen d
               in if pow2 k \<le> q then k else k - 1)"

text \<open>Round to the nearest integer, ties to the even one.\<close>

definition rne :: "rat \<Rightarrow> int" where
  "rne x = (let f = \<lfloor>x\<rfloor>; r = x - of_int f
            in if r < 1 / 2 then f else if 1 / 2 < r then f + 1
               else if even f then f else f + 1)"

text \<open>
  The unit in the last place of the binade of \<open>q\<close>: 24 significant bits, and the
  subnormal spacing \<open>2^-149\<close> below \<open>2^-126\<close>.
\<close>

definition ulp32 :: "rat \<Rightarrow> rat" where
  "ulp32 q = pow2 (max (binade q) (- 126) - 23)"

definition round_mag :: "rat \<Rightarrow> rat" where
  "round_mag q = of_int (rne (q / ulp32 q)) * ulp32 q"

text \<open>The binary32 value of sign \<open>s\<close> nearest to the magnitude \<open>q \<ge> 0\<close>; overflow gives infinity.\<close>

definition mk32 :: "bool \<Rightarrow> rat \<Rightarrow> float32" where
  "mk32 s q = (let m = round_mag q in if pow2 128 \<le> m then Inf s else Fin s m)"

definition signed :: "bool \<Rightarrow> rat \<Rightarrow> rat" where
  "signed s m = (if s then - m else m)"

fun fadd :: "float32 \<Rightarrow> float32 \<Rightarrow> float32" where
  "fadd NaN _ = NaN"
| "fadd _ NaN = NaN"
| "fadd (Inf s) (Inf t) = (if s = t then Inf s else NaN)"
| "fadd (Inf s) (Fin _ _) = Inf s"
| "fadd (Fin _ _) (Inf t) = Inf t"
| "fadd (Fin s a) (Fin t b) =
     (let v = signed s a + signed t b
      in if v = 0 then Fin (s \<and> t) 0 else mk32 (v < 0) \<bar>v\<bar>)"

fun fneg :: "float32 \<Rightarrow> float32" where
  "fneg NaN = NaN"
| "fneg (Inf s) = Inf (\<not> s)"
| "fneg (Fin s a) = Fin (\<not> s) a"

definition fsub :: "float32 \<Rightarrow> float32 \<Rightarrow> float32" where
  "fsub x y = fadd x (fneg y)"

fun fmul :: "float32 \<Rightarrow> float32 \<Rightarrow> float32" where
  "fmul NaN _ = NaN"
| "fmul _ NaN = NaN"
| "fmul (Inf s) (Inf t) = Inf (s \<noteq> t)"
| "fmul (Inf s) (Fin t b) = (if b = 0 then NaN else Inf (s \<noteq> t))"
| "fmul (Fin s a) (Inf t) = (if a = 0 then NaN else Inf (s \<noteq> t))"
| "fmul (Fin s a) (Fin t b) = mk32 (s \<noteq> t) (a * b)"

fun fdiv :: "float32 \<Rightarrow> float32 \<Rightarrow> float32" where
  "fdiv NaN _ = NaN"
| "fdiv _ NaN = NaN"
| "fdiv (Inf s) (Inf t) = NaN"
| "fdiv (Inf s) (Fin t b) = Inf (s \<noteq> t)"
| "fdiv (Fin s a) (Inf t) = Fin (s \<noteq> t) 0"
| "fdiv (Fin s a) (Fin t b) =
     (if b = 0 then (if a = 0 then NaN else Inf (s \<noteq> t)) else mk32 (s \<noteq> t) (a / b))"

text \<open>Conversions: \<^verbatim>\<open>float32(i)\<close> of an integer, and of a constant such as \<^verbatim>\<open>0.1\<close>.\<close>

definition float32_of_int :: "int \<Rightarrow> float32" where
  "float32_of_int i = mk32 (i < 0) (of_int \<bar>i\<bar>)"

definition float32_of_rat :: "rat \<Rightarrow> float32" where
  "float32_of_rat q = mk32 (q < 0) \<bar>q\<bar>"

text \<open>
  \<^verbatim>\<open>uint32(x)\<close> discards the fraction. Where the truncated value is not a \<^verbatim>\<open>uint32\<close> (or
  \<open>x\<close> is not finite) the conversion still succeeds and its value depends on the
  implementation: that value is the parameter \<open>oor\<close>.
\<close>

definition uint32_of_float32 :: "(float32 \<Rightarrow> uint32) \<Rightarrow> float32 \<Rightarrow> uint32" where
  "uint32_of_float32 oor x =
     (case x of
        Fin s m \<Rightarrow>
          (let t = (if s then - \<lfloor>m\<rfloor> else \<lfloor>m\<rfloor>)
           in if 0 \<le> t \<and> t < 2 ^ 32 then word_of_int t else oor x)
      | _ \<Rightarrow> oor x)"

text \<open>Go's comparison \<^verbatim>\<open>x <= y\<close>: false when either side is a NaN; the two zeros are equal.\<close>

fun fle :: "float32 \<Rightarrow> float32 \<Rightarrow> bool" where
  "fle NaN _ = False"
| "fle _ NaN = False"
| "fle (Inf s) (Inf t) = (s \<or> \<not> t)"
| "fle (Inf s) (Fin _ _) = s"
| "fle (Fin _ _) (Inf t) = (\<not> t)"
| "fle (Fin s a) (Fin t b) = (signed s a \<le> signed t b)"

text \<open>A finite value with a clear sign bit: a positive number or the positive zero.\<close>

definition finite_nonneg :: "float32 \<Rightarrow> bool" where
  "finite_nonneg x = (case x of Fin s m \<Rightarrow> \<not> s \<and> 0 \<le> m | _ \<Rightarrow> False)"


subsection \<open>The collaborators outside the repository\<close>

text \<open>
  The parsed font (package \<^verbatim>\<open>truetype\<close>) is a black box answering three queries; its
  metrics are \<^verbatim>\<open>int32\<close> values.
\<close>

record Bounds =
  XMin :: int32
  YMin :: int32
  XMax :: int32
  YMax :: int32

record HMetric =
  AdvanceWidth :: int32
  LeftSideBearing :: int32

record truetype_Font =
  font_Bounds :: "int32 \<Rightarrow> Bounds"
  font_Index :: "rune \<Rightarrow> uint16"
  font_HMetric :: "int32 \<Rightarrow> uint16 \<Rightarrow> HMetric"

text \<open>
  \<^verbatim>\<open>glh.Pow2\<close>, the implementation-dependent part of the conversion to \<^verbatim>\<open>uint32\<close>, the
  memory of the machine, and the two calls of \<^verbatim>\<open>loadFont\<close> that can fail (\<open>None\<close> is the
  error return). \<open>can_allocate w h\<close> says whether the runtime can make the pixel buffer
  of a bitmap \<open>w\<close> wide and \<open>h\<close> high, a slice of \<open>4 * w * h\<close> bytes.
\<close>

record extern =
  glh_Pow2 :: "uint32 \<Rightarrow> uint32"
  conv_oor :: "float32 \<Rightarrow> uint32"
  can_allocate :: "int \<Rightarrow> int \<Rightarrow> bool"
  ioutil_ReadFile :: "string \<Rightarrow> 8 word list option"
  freetype_ParseFont :: "8 word list \<Rightarrow> truetype_Font option"

text \<open>Package \<^verbatim>\<open>image\<close>: \<^verbatim>\<open>Rect\<close> orders its corners; \<^verbatim>\<open>Dx\<close> and \<^verbatim>\<open>Dy\<close> are the side lengths.\<close>

record Point =
  X :: int
  Y :: int

record Rectangle =
  rMin :: Point
  rMax :: Point

definition Rect :: "int \<Rightarrow> int \<Rightarrow> int \<Rightarrow> int \<Rightarrow> Rectangle" where
  "Rect x0 y0 x1 y1 =
     (let (x0', x1') = (if x0 > x1 then (x1, x0) else (x0, x1));
          (y0', y1') = (if y0 > y1 then (y1, y0) else (y0, y1))
      in \<lparr>rMin = \<lparr>X = x0', Y = y0'\<rparr>, rMax = \<lparr>X = x1', Y = y1'\<rparr>\<rparr>)"

definition Dx :: "Rectangle \<Rightarrow> int" where
  "Dx r = X (rMax r) - X (rMin r)"

definition Dy :: "Rectangle \<Rightarrow> int" where
  "Dy r = Y (rMax r) - Y (rMin r)"

subsection \<open>The atlas builder\<close>

datatype error = IndexOutOfRange | Fatal | AllocationFailed

datatype Vector4 = Vector4 (vx: float32) (vy: float32) (vz: float32) (vw: float32)

definition low :: rune where "low = 32"
definition high :: rune where "high = 127"
definition glyphCount :: int32 where "glyphCount = high - low + 1"

text \<open>
  The four vertices appended for one glyph, in the order of the \<^verbatim>\<open>append\<close> call. The
  glyph is also drawn into the bitmap at this point (\<^verbatim>\<open>c.DrawString\<close>); the pixels are
  not modelled, only the bounds of the bitmap are.
\<close>

definition quad ::
  "float32 \<Rightarrow> float32 \<Rightarrow> float32 \<Rightarrow> float32 \<Rightarrow> float32 \<Rightarrow> float32 \<Rightarrow> float32 \<Rightarrow> float32 \<Rightarrow>
   Vector4 list" where
  "quad gw gh w h texWidth texHeight gx gy =
     (let tx1 = fdiv gx texWidth;
          ty1 = fdiv gy texHeight;
          tx2 = fdiv (fadd gx gw) texWidth;
          ty2 = fdiv (fadd gy gh) texHeight
      in [Vector4 (Fin True 1) (Fin False 1) tx1 ty1,
          Vector4 (fadd (Fin True 1) w) (Fin False 1) tx2 ty1,
          Vector4 (Fin True 1) (fsub (Fin False 1) h) tx1 ty2,
          Vector4 (fadd (Fin True 1) w) (fsub (Fin False 1) h) tx2 ty2])"

text \<open>
  The loop \<^verbatim>\<open>for ch := low; ch <= high; ch++\<close> with the variables it updates: \<^verbatim>\<open>gi\<close>,
  \<^verbatim>\<open>gx\<close>, \<^verbatim>\<open>verts\<close> and \<^verbatim>\<open>offsets\<close> (\<^verbatim>\<open>gy\<close> is never assigned). The store
  \<^verbatim>\<open>offsets[gi] = ...\<close> panics outside the slice.
\<close>

function atlas_loop ::
  "truetype_Font \<Rightarrow> int32 \<Rightarrow> float32 \<Rightarrow> float32 \<Rightarrow> float32 \<Rightarrow> float32 \<Rightarrow> float32 \<Rightarrow>
   float32 \<Rightarrow> float32 \<Rightarrow> rune \<Rightarrow> int32 \<Rightarrow> float32 \<Rightarrow> float32 \<Rightarrow> Vector4 list \<Rightarrow> float32 list \<Rightarrow>
   error + (Vector4 list \<times> float32 list)" where
  "atlas_loop font scale sx gw gh w h texWidth texHeight ch gi gx gy verts offsets =
     (if ch \<le>s high then
        (let index = font_Index font ch;
             metric = font_HMetric font scale index
         in if 0 \<le> sint gi \<and> sint gi < int (length offsets) then
              atlas_loop font scale sx gw gh w h texWidth texHeight (ch + 1)
                (gi + 1) (fadd gx gw) gy
                (verts @ quad gw gh w h texWidth texHeight gx gy)
                (offsets[nat (sint gi) :=
                   fmul (float32_of_int (sint (AdvanceWidth metric))) sx])
            else Inl IndexOutOfRange)
      else Inr (verts, offsets))"
  by pat_completeness auto
termination
proof (relation "measure (\<lambda>(font, scale, sx, gw, gh, w, h, texWidth, texHeight, ch, rest).
        nat (128 - sint ch))", goal_cases)
  case 1
  show ?case by simp
next
  case (2 font scale sx gw gh w h texWidth texHeight ch gi gx gy verts offsets index metric)
  from \<open>ch \<le>s high\<close> have le: "sint ch \<le> 127"
    by (simp add: word_sle_eq high_def)
  have "sint (ch + 1) = signed_take_bit 31 (sint ch + 1)"
    by (simp add: sint_word_ariths)
  also have "\<dots> = sint ch + 1"
    using le sint_ge [of ch] by (simp add: signed_take_bit_int_eq_self)
  finally show ?case
    using le by simp
qed

declare atlas_loop.simps [simp del]

text \<open>
  \<^verbatim>\<open>image.NewRGBA(r)\<close> makes the pixel buffer of the rectangle \<open>r\<close> and returns the bitmap
  with these bounds. Where the buffer cannot be made the call does not return: the
  runtime panics (the length is out of its range) or the process dies out of memory.
  The pixels are not modelled.
\<close>

record RGBA =
  rect :: Rectangle

definition NewRGBA :: "extern \<Rightarrow> Rectangle \<Rightarrow> error + RGBA" where
  "NewRGBA ext r =
     (if can_allocate ext (Dx r) (Dy r) then Inr \<lparr>rect = r\<rparr> else Inl AllocationFailed)"

text \<open>
  \<^verbatim>\<open>generateAtlas\<close>: the sizes, the bitmap (line 110, before the loop), then the loop.
\<close>

definition generateAtlas ::
  "extern \<Rightarrow> truetype_Font \<Rightarrow> int32 \<Rightarrow> float64 \<Rightarrow> float32 \<Rightarrow> float32 \<Rightarrow>
   error + (Vector4 list \<times> RGBA \<times> float32 list)" where
  "generateAtlas ext font scale dpi width height =
     (let offsets = replicate (nat (sint glyphCount)) (Fin False 0);
          bounds = font_Bounds font scale;
          gw = float32_of_int (sint (XMax bounds - XMin bounds));
          gh = float32_of_int (sint (YMax bounds - YMin bounds));
          imageWidth = glh_Pow2 ext (uint32_of_float32 (conv_oor ext)
                         (fmul gw (float32_of_int (sint glyphCount))));
          imageHeight = glh_Pow2 ext (uint32_of_float32 (conv_oor ext) gh);
          imageBounds = Rect 0 0 (uint imageWidth) (uint imageHeight);
          sx = fdiv (Fin False 2) width;
          sy = fdiv (Fin False 2) height;
          w = fmul gw sx;
          h = fmul gh sy
      in case NewRGBA ext imageBounds of
           Inl e \<Rightarrow> Inl e
         | Inr img \<Rightarrow>
             (let texWidth = float32_of_int (Dx (rect img));
                  texHeight = float32_of_int (Dy (rect img))
              in case atlas_loop font scale sx gw gh w h texWidth texHeight low
                        0 (Fin False 0) (Fin False 0) [] offsets of
                   Inl e \<Rightarrow> Inl e
                 | Inr (verts, offsets') \<Rightarrow> Inr (verts, img, offsets')))"

subsection \<open>The OpenGL context\<close>

text \<open>
  Package \<^verbatim>\<open>gl\<close> is a binding of the OpenGL API. The context records the commands issued,
  in order, and the part of the state the renderer touches: the blend switch and factors,
  the bindings, and the names of the live objects. Object names are handed out from a
  counter and deletion is immediate; deleting a name that is not live (such as 0) does
  nothing. Uniform values are not tracked: the \<^verbatim>\<open>Uniform\<close> commands are in the log. What
  the driver answers to a query is given with the context.
\<close>

datatype GLenum = GL_BLEND | GL_SRC_ALPHA | GL_ONE_MINUS_SRC_ALPHA | GL_ONE | GL_ZERO
  | GL_TRIANGLE_STRIP | GL_ARRAY_BUFFER | GL_STATIC_DRAW | GL_FLOAT | GL_TEXTURE0
  | GL_TEXTURE_2D | GL_UNPACK_ALIGNMENT | GL_TEXTURE_WRAP_S | GL_TEXTURE_WRAP_T
  | GL_CLAMP_TO_EDGE | GL_TEXTURE_MIN_FILTER | GL_TEXTURE_MAG_FILTER | GL_LINEAR
  | GL_RGBA | GL_UNSIGNED_BYTE | GL_VERTEX_SHADER | GL_FRAGMENT_SHADER

datatype gl_call =
    Enable GLenum
  | Disable GLenum
  | BlendFunc GLenum GLenum
  | CreateShader GLenum nat
  | Shader_Source nat string
  | Shader_Compile nat
  | Shader_Delete nat
  | CreateProgram nat
  | Program_AttachShader nat nat
  | Program_Link nat
  | Program_Use nat
  | Program_Unuse nat
  | Program_Delete nat
  | GenVertexArray nat
  | VertexArray_Bind nat
  | VertexArray_Unbind nat
  | VertexArray_Delete nat
  | GenBuffer nat
  | Buffer_Bind nat GLenum
  | Buffer_Unbind nat GLenum
  | Buffer_Delete nat
  | BufferData GLenum int "Vector4 list" GLenum
  | AttribPointer int nat GLenum bool int
  | EnableArray int
  | ActiveTexture GLenum
  | GenTexture nat
  | Texture_Bind nat GLenum
  | Uniform1i int int
  | Uniform2f int float32 float32
  | Uniform4fv int int "float32 list"
  | PixelStorei GLenum int
  | TexParameteri GLenum GLenum GLenum
  | TexImage2D GLenum int GLenum int int int GLenum GLenum
  | DrawArrays GLenum int int

record gl_context =
  blend :: bool
  blendFunc :: "GLenum \<times> GLenum"
  currentProgram :: nat
  vertexArrayBinding :: nat
  arrayBufferBinding :: nat
  texture2DBinding :: nat
  shaders :: "nat set"
  programs :: "nat set"
  buffers :: "nat set"
  vertexArrays :: "nat set"
  textures :: "nat set"
  nextName :: nat
  compileStatus :: "nat \<Rightarrow> int"
  linkStatus :: "nat \<Rightarrow> int"
  infoLog :: "nat \<Rightarrow> string"
  attribLocation :: "nat \<Rightarrow> string \<Rightarrow> int"
  uniformLocation :: "nat \<Rightarrow> string \<Rightarrow> int"
  issued :: "gl_call list"

fun effect :: "gl_call \<Rightarrow> gl_context \<Rightarrow> gl_context" where
  "effect (Enable cap) g = (if cap = GL_BLEND then g\<lparr>blend := True\<rparr> else g)"
| "effect (Disable cap) g = (if cap = GL_BLEND then g\<lparr>blend := False\<rparr> else g)"
| "effect (BlendFunc sfactor dfactor) g = g\<lparr>blendFunc := (sfactor, dfactor)\<rparr>"
| "effect (CreateShader t n) g = g\<lparr>shaders := insert n (shaders g), nextName := Suc n\<rparr>"
| "effect (CreateProgram n) g = g\<lparr>programs := insert n (programs g), nextName := Suc n\<rparr>"
| "effect (GenVertexArray n) g =
     g\<lparr>vertexArrays := insert n (vertexArrays g), nextName := Suc n\<rparr>"
| "effect (GenBuffer n) g = g\<lparr>buffers := insert n (buffers g), nextName := Suc n\<rparr>"
| "effect (GenTexture n) g = g\<lparr>textures := insert n (textures g), nextName := Suc n\<rparr>"
| "effect (Shader_Delete n) g = g\<lparr>shaders := shaders g - {n}\<rparr>"
| "effect (Program_Delete n) g = g\<lparr>programs := programs g - {n}\<rparr>"
| "effect (Buffer_Delete n) g = g\<lparr>buffers := buffers g - {n}\<rparr>"
| "effect (VertexArray_Delete n) g = g\<lparr>vertexArrays := vertexArrays g - {n}\<rparr>"
| "effect (Program_Use p) g = g\<lparr>currentProgram := p\<rparr>"
| "effect (Program_Unuse p) g = g\<lparr>currentProgram := 0\<rparr>"
| "effect (VertexArray_Bind a) g = g\<lparr>vertexArrayBinding := a\<rparr>"
| "effect (VertexArray_Unbind a) g = g\<lparr>vertexArrayBinding := 0\<rparr>"
| "effect (Buffer_Bind b t) g = (if t = GL_ARRAY_BUFFER then g\<lparr>arrayBufferBinding := b\<rparr> else g)"
| "effect (Buffer_Unbind b t) g = (if t = GL_ARRAY_BUFFER then g\<lparr>arrayBufferBinding := 0\<rparr> else g)"
| "effect (Texture_Bind x t) g = (if t = GL_TEXTURE_2D then g\<lparr>texture2DBinding := x\<rparr> else g)"
| "effect _ g = g"

text \<open>Issuing a command: its effect, and an entry in the log.\<close>

definition gl :: "gl_call \<Rightarrow> gl_context \<Rightarrow> gl_context" where
  "gl c g = (effect c g)\<lparr>issued := issued g @ [c]\<rparr>"

subsection \<open>The renderer\<close>

record Font =
  program :: nat
  vs :: nat
  fs :: nat
  positionAttrib :: int
  colorUniform :: int
  offsetUniform :: int
  vao :: nat
  vbo :: nat
  offsets :: "float32 list"
  color :: "float32 list"

definition loadFont :: "extern \<Rightarrow> string \<Rightarrow> error + truetype_Font" where
  "loadFont ext fontPath =
     (case ioutil_ReadFile ext fontPath of
        None \<Rightarrow> Inl Fatal
      | Some b \<Rightarrow>
          (case freetype_ParseFont ext b of
             None \<Rightarrow> Inl Fatal
           | Some font \<Rightarrow> Inr font))"

text \<open>\<^verbatim>\<open>NewShader\<close> returns the shader 0 and an error when the compilation failed.\<close>

definition NewShader :: "GLenum \<Rightarrow> string \<Rightarrow> gl_context \<Rightarrow> (nat \<times> string option) \<times> gl_context" where
  "NewShader shaderType source g =
     (let s = nextName g;
          g1 = gl (CreateShader shaderType s) g;
          g2 = gl (Shader_Source s source) g1;
          g3 = gl (Shader_Compile s) g2;
          compile_ok = compileStatus g3 s
      in if compile_ok = 0 then ((0, Some (infoLog g3 s)), g3) else ((s, None), g3))"

definition NewProgram :: "nat \<Rightarrow> nat \<Rightarrow> gl_context \<Rightarrow> nat \<times> gl_context" where
  "NewProgram vs' fs' g =
     (let program' = nextName g;
          g1 = gl (CreateProgram program') g;
          g2 = gl (Program_AttachShader program' vs') g1;
          g3 = gl (Program_AttachShader program' fs') g2;
          g4 = gl (Program_Link program') g3
      in (program', g4))"

definition vertexSource :: string where
  "vertexSource = ''#version 150\<newline>    in vec4 position;\<newline>    out vec2 texpos;\<newline>    uniform vec2 offset;\<newline>    void main() {\<newline>        gl_Position = vec4(position.xy + offset, 0, 1);\<newline>'' @ [CHR 0x09, CHR 0x09] @ ''texpos = position.zw;\<newline>    }''"

definition fragmentSource :: string where
  "fragmentSource = ''#version 150\<newline>    in vec2 texpos;\<newline>    uniform sampler2D tex;\<newline>    uniform vec4 color;\<newline>    out vec4  fragColor;\<newline>    void main(void) {\<newline>        fragColor = texture(tex, texpos) * color;\<newline>    }''"

text \<open>The two shaders are local to \<^verbatim>\<open>createProgram\<close>: only the program is returned.\<close>

definition createProgram :: "gl_context \<Rightarrow> nat \<times> gl_context" where
  "createProgram g =
     (let ((vs', err), g1) = NewShader GL_VERTEX_SHADER vertexSource g;
          ((fs', err'), g2) = NewShader GL_FRAGMENT_SHADER fragmentSource g1
      in NewProgram vs' fs' g2)"

text \<open>
  \<^verbatim>\<open>NewFont\<close>. The composite literal it returns names eight of the ten fields of
  \<^verbatim>\<open>Font\<close>; \<^verbatim>\<open>vs\<close> and \<^verbatim>\<open>fs\<close> are not among them and keep the zero value.
\<close>

definition NewFont ::
  "extern \<Rightarrow> string \<Rightarrow> int32 \<Rightarrow> float64 \<Rightarrow> float32 \<Rightarrow> float32 \<Rightarrow> gl_context \<Rightarrow>
   error + (Font \<times> gl_context)" where
  "NewFont ext fontPath scale dpi width height g =
     (case loadFont ext fontPath of
        Inl e \<Rightarrow> Inl e
      | Inr font \<Rightarrow>
     (case generateAtlas ext font scale dpi width height of
        Inl e \<Rightarrow> Inl e
      | Inr (coords, texture, offsets') \<Rightarrow>
          (let (program', g1) = createProgram g;
               vao' = nextName g1;
               g2 = gl (VertexArray_Bind vao') (gl (GenVertexArray vao') g1);
               vbo' = nextName g2;
               g3 = gl (Buffer_Bind vbo' GL_ARRAY_BUFFER) (gl (GenBuffer vbo') g2)
           in if coords = [] then Inl IndexOutOfRange
              else
                (let g4 = gl (BufferData GL_ARRAY_BUFFER (16 * int (length coords)) coords
                            GL_STATIC_DRAW) g3;
                     positionAttrib' = attribLocation g4 program' ''position'';
                     g5 = gl (AttribPointer positionAttrib' 4 GL_FLOAT False 0) g4;
                     g6 = gl (EnableArray positionAttrib') g5;
                     g7 = gl (Buffer_Unbind vbo' GL_ARRAY_BUFFER) g6;
                     textureUniform = uniformLocation g7 program' ''tex'';
                     offsetUniform' = uniformLocation g7 program' ''offset'';
                     colorUniform' = uniformLocation g7 program' ''color'';
                     g8 = gl (ActiveTexture GL_TEXTURE0) g7;
                     tex = nextName g8;
                     g9 = gl (Texture_Bind tex GL_TEXTURE_2D) (gl (GenTexture tex) g8);
                     g10 = gl (Uniform1i textureUniform 0) g9;
                     g11 = gl (PixelStorei GL_UNPACK_ALIGNMENT 1) g10;
                     g12 = gl (TexParameteri GL_TEXTURE_2D GL_TEXTURE_WRAP_S GL_CLAMP_TO_EDGE) g11;
                     g13 = gl (TexParameteri GL_TEXTURE_2D GL_TEXTURE_WRAP_T GL_CLAMP_TO_EDGE) g12;
                     g14 = gl (TexParameteri GL_TEXTURE_2D GL_TEXTURE_MIN_FILTER GL_LINEAR) g13;
                     g15 = gl (TexParameteri GL_TEXTURE_2D GL_TEXTURE_MAG_FILTER GL_LINEAR) g14;
                     g16 = gl (TexImage2D GL_TEXTURE_2D 0 GL_RGBA (Dx (rect texture))
                             (Dy (rect texture)) 0 GL_RGBA GL_UNSIGNED_BYTE) g15;
                     g17 = gl (VertexArray_Unbind vao') g16
                 in Inr (\<lparr>program = program', vs = 0, fs = 0,
                          positionAttrib = positionAttrib',
                          colorUniform = colorUniform', offsetUniform = offsetUniform',
                          vao = vao', vbo = vbo', offsets = offsets',
                          color = [Fin False 1, Fin False 1, Fin False 1, Fin False 1]\<rparr>,
                         g17)))))"

text \<open>
  The loop of \<^verbatim>\<open>Printf\<close> over the characters of the formatted string \<open>s\<close> (the runes that
  \<^verbatim>\<open>range\<close> yields for the result of \<^verbatim>\<open>fmt.Sprintf\<close>). The read \<^verbatim>\<open>this.offsets[index]\<close>
  panics outside the slice.
\<close>

fun Printf_loop ::
  "Font \<Rightarrow> float32 \<Rightarrow> float32 \<Rightarrow> rune list \<Rightarrow> float32 \<Rightarrow> gl_context \<Rightarrow> error + gl_context" where
  "Printf_loop this x y [] totalOffset g = Inr g"
| "Printf_loop this x y (ch # s) totalOffset g =
     (let index = sint (ch - 32)
      in if 0 \<le> index \<and> index < int (length (offsets this)) then
           (let offset = offsets this ! nat index;
                g1 = gl (Uniform2f (offsetUniform this) (fadd x totalOffset) y) g;
                g2 = gl (DrawArrays GL_TRIANGLE_STRIP (index * 4) 4) g1
            in Printf_loop this x y s (fadd totalOffset offset) g2)
         else Inl IndexOutOfRange)"

definition Printf :: "Font \<Rightarrow> float32 \<Rightarrow> float32 \<Rightarrow> rune list \<Rightarrow> gl_context \<Rightarrow> error + gl_context" where
  "Printf this x y s g =
     (let g1 = gl (Enable GL_BLEND) g;
          g2 = gl (BlendFunc GL_SRC_ALPHA GL_ONE_MINUS_SRC_ALPHA) g1;
          g3 = gl (Program_Use (program this)) g2;
          g4 = gl (VertexArray_Bind (vao this)) g3;
          g5 = gl (Uniform4fv (colorUniform this) 1 (color this)) g4;
          totalOffset = Fin False 0
      in case Printf_loop this x y s totalOffset g5 of
           Inl e \<Rightarrow> Inl e
         | Inr g6 \<Rightarrow>
             (let g7 = gl (VertexArray_Unbind (vao this)) g6;
                  g8 = gl (Program_Unuse (program this)) g7
              in Inr (gl (Disable GL_BLEND) g8)))"

definition Delete :: "Font \<Rightarrow> gl_context \<Rightarrow> gl_context" where
  "Delete this g =
     (let g1 = gl (Shader_Delete (vs this)) g;
          g2 = gl (Shader_Delete (fs this)) g1;
          g3 = gl (Program_Delete (program this)) g2;
          g4 = gl (Buffer_Delete (vbo this)) g3
      in gl (VertexArray_Delete (vao this)) g4)"

subsection \<open>Names for the values \<^verbatim>\<open>generateAtlas\<close> computes\<close>

text \<open>
  The local values of \<^verbatim>\<open>generateAtlas\<close> as functions of its inputs, to state what the
  result contains: the cell size \<^verbatim>\<open>gw\<close>, \<^verbatim>\<open>gh\<close>, the bounds of the bitmap, \<^verbatim>\<open>texWidth\<close>,
  \<^verbatim>\<open>texHeight\<close>, the scale factors \<^verbatim>\<open>sx\<close>, \<^verbatim>\<open>sy\<close> and the clip-space cell size \<^verbatim>\<open>w\<close>, \<^verbatim>\<open>h\<close>.
\<close>

definition cell_gw :: "truetype_Font \<Rightarrow> int32 \<Rightarrow> float32" where
  "cell_gw font scale =
     float32_of_int (sint (XMax (font_Bounds font scale) - XMin (font_Bounds font scale)))"

definition cell_gh :: "truetype_Font \<Rightarrow> int32 \<Rightarrow> float32" where
  "cell_gh font scale =
     float32_of_int (sint (YMax (font_Bounds font scale) - YMin (font_Bounds font scale)))"

definition required_width :: "truetype_Font \<Rightarrow> int32 \<Rightarrow> float32" where
  "required_width font scale = fmul (cell_gw font scale) (float32_of_int (sint glyphCount))"

definition atlas_rect :: "extern \<Rightarrow> truetype_Font \<Rightarrow> int32 \<Rightarrow> Rectangle" where
  "atlas_rect ext font scale =
     Rect 0 0
       (uint (glh_Pow2 ext (uint32_of_float32 (conv_oor ext) (required_width font scale))))
       (uint (glh_Pow2 ext (uint32_of_float32 (conv_oor ext) (cell_gh font scale))))"

definition tex_width :: "extern \<Rightarrow> truetype_Font \<Rightarrow> int32 \<Rightarrow> float32" where
  "tex_width ext font scale = float32_of_int (Dx (atlas_rect ext font scale))"

definition tex_height :: "extern \<Rightarrow> truetype_Font \<Rightarrow> int32 \<Rightarrow> float32" where
  "tex_height ext font scale = float32_of_int (Dy (atlas_rect ext font scale))"

definition clip_sx :: "float32 \<Rightarrow> float32" where
  "clip_sx width = fdiv (Fin False 2) width"

definition clip_sy :: "float32 \<Rightarrow> float32" where
  "clip_sy height = fdiv (Fin False 2) height"

definition clip_w :: "truetype_Font \<Rightarrow> int32 \<Rightarrow> float32 \<Rightarrow> float32" where
  "clip_w font scale width = fmul (cell_gw font scale) (clip_sx width)"

definition clip_h :: "truetype_Font \<Rightarrow> int32 \<Rightarrow> float32 \<Rightarrow> float32" where
  "clip_h font scale height = fmul (cell_gh font scale) (clip_sy height)"

text \<open>The value of \<^verbatim>\<open>gx\<close> after \<open>i\<close> passes of the loop that started at \<open>gx0\<close>.\<close>

definition glyph_gx :: "float32 \<Rightarrow> float32 \<Rightarrow> nat \<Rightarrow> float32" where
  "glyph_gx gw gx0 i = ((\<lambda>g. fadd g gw) ^^ i) gx0"

text \<open>The four vertices of the glyph of index \<open>i\<close>, the character \<open>32 + i\<close>.\<close>

definition glyph_quad ::
  "extern \<Rightarrow> truetype_Font \<Rightarrow> int32 \<Rightarrow> float32 \<Rightarrow> float32 \<Rightarrow> nat \<Rightarrow> Vector4 list" where
  "glyph_quad ext font scale width height i =
     quad (cell_gw font scale) (cell_gh font scale)
       (clip_w font scale width) (clip_h font scale height)
       (tex_width ext font scale) (tex_height ext font scale)
       (glyph_gx (cell_gw font scale) (Fin False 0) i) (Fin False 0)"

text \<open>The advance-table entry the loop stores for the character \<open>ch\<close>.\<close>

definition advance_of :: "truetype_Font \<Rightarrow> int32 \<Rightarrow> float32 \<Rightarrow> rune \<Rightarrow> float32" where
  "advance_of font scale sx ch =
     fmul (float32_of_int (sint (AdvanceWidth (font_HMetric font scale (font_Index font ch))))) sx"

text \<open>
  The three components of the result. Whether the bitmap can be allocated decides
  whether there is a result, not what it contains: the components are read off the run
  in which the allocation succeeds (\<open>with_memory\<close> changes nothing else), and they are
  the empty ones if that run panicked.
\<close>

definition with_memory :: "extern \<Rightarrow> extern" where
  "with_memory ext = ext\<lparr>can_allocate := (\<lambda>w h. True)\<rparr>"

definition atlas_verts ::
  "extern \<Rightarrow> truetype_Font \<Rightarrow> int32 \<Rightarrow> float64 \<Rightarrow> float32 \<Rightarrow> float32 \<Rightarrow> Vector4 list" where
  "atlas_verts ext font scale dpi width height =
     (case generateAtlas (with_memory ext) font scale dpi width height of
        Inl e \<Rightarrow> []
      | Inr (verts, img, offs) \<Rightarrow> verts)"

definition atlas_offsets ::
  "extern \<Rightarrow> truetype_Font \<Rightarrow> int32 \<Rightarrow> float64 \<Rightarrow> float32 \<Rightarrow> float32 \<Rightarrow> float32 list" where
  "atlas_offsets ext font scale dpi width height =
     (case generateAtlas (with_memory ext) font scale dpi width height of
        Inl e \<Rightarrow> []
      | Inr (verts, img, offs) \<Rightarrow> offs)"

definition atlas_image ::
  "extern \<Rightarrow> truetype_Font \<Rightarrow> int32 \<Rightarrow> float64 \<Rightarrow> float32 \<Rightarrow> float32 \<Rightarrow> RGBA" where
  "atlas_image ext font scale dpi width height =
     (case generateAtlas (with_memory ext) font scale dpi width height of
        Inl e \<Rightarrow> \<lparr>rect = Rect 0 0 0 0\<rparr>
      | Inr (verts, img, offs) \<Rightarrow> img)"

subsection \<open>The draw protocol in the words of the specification\<close>

text \<open>
  For each character in order: the index is the character code minus 32; the offset
  uniform is set to \<open>(x + runningOffset, y)\<close>; one triangle strip of 4 vertices is drawn
  from the vertex \<open>4 * index\<close>; the table entry of the index is added to the running
  offset.
\<close>

fun draw_calls :: "Font \<Rightarrow> float32 \<Rightarrow> float32 \<Rightarrow> rune list \<Rightarrow> float32 \<Rightarrow> gl_call list" where
  "draw_calls this x y [] runningOffset = []"
| "draw_calls this x y (ch # s) runningOffset =
     [Uniform2f (offsetUniform this) (fadd x runningOffset) y,
      DrawArrays GL_TRIANGLE_STRIP ((sint ch - 32) * 4) 4] @
     draw_calls this x y s (fadd runningOffset (offsets this ! nat (sint ch - 32)))"

text \<open>The commands \<^verbatim>\<open>Printf\<close> issues before and after the characters.\<close>

definition Printf_prologue :: "Font \<Rightarrow> gl_call list" where
  "Printf_prologue this =
     [Enable GL_BLEND, BlendFunc GL_SRC_ALPHA GL_ONE_MINUS_SRC_ALPHA,
      Program_Use (program this), VertexArray_Bind (vao this),
      Uniform4fv (colorUniform this) 1 (color this)]"

definition Printf_epilogue :: "Font \<Rightarrow> gl_call list" where
  "Printf_epilogue this =
     [VertexArray_Unbind (vao this), Program_Unuse (program this), Disable GL_BLEND]"

text \<open>The characters the advance table of a renderer covers.\<close>

definition in_table :: "Font \<Rightarrow> rune \<Rightarrow> bool" where
  "in_table this ch \<longleftrightarrow> 32 \<le> sint ch \<and> sint ch - 32 < int (length (offsets this))"

text \<open>The commands of the loop of \<^verbatim>\<open>Printf\<close>: they set the offset uniform or draw.\<close>

definition glyph_call :: "gl_call \<Rightarrow> bool" where
  "glyph_call c = (case c of Uniform2f l a b \<Rightarrow> True | DrawArrays m f n \<Rightarrow> True | _ \<Rightarrow> False)"

text \<open>
  The context \<^verbatim>\<open>Printf\<close> leaves when it started in \<open>g\<close> and its loop issued the commands
  \<open>ds\<close>: blending off, the factors set, no program in use, no vertex array bound.
\<close>

definition Printf_final :: "Font \<Rightarrow> gl_call list \<Rightarrow> gl_context \<Rightarrow> gl_context" where
  "Printf_final this ds g =
     g\<lparr>blend := False, blendFunc := (GL_SRC_ALPHA, GL_ONE_MINUS_SRC_ALPHA),
       currentProgram := 0, vertexArrayBinding := 0,
       issued := issued g @ Printf_prologue this @ ds @ Printf_epilogue this\<rparr>"

subsection \<open>A font, collaborators and a context for the examples\<close>

text \<open>
  Modelled from the spec: \<^verbatim>\<open>glh.Pow2\<close> is a function of another repository and is not
  part of the source. The spec calls it next-power-of-two: the bitmap's sides are
  ``rounded up to the next power of two'', each ``a power of two and \<open>\<ge>\<close> the unrounded
  required dimension''. The model is the least power of two that is at least \<open>x\<close>; above
  \<open>2^31\<close> no \<^verbatim>\<open>uint32\<close> is one, and the value \<open>2^32\<close> wraps to 0.
\<close>

fun pow2_search :: "nat \<Rightarrow> nat \<Rightarrow> nat \<Rightarrow> nat" where
  "pow2_search 0 p n = p"
| "pow2_search (Suc k) p n = (if n \<le> p then p else pow2_search k (2 * p) n)"

definition Pow2 :: "uint32 \<Rightarrow> uint32" where
  "Pow2 x = word_of_nat (pow2_search 32 1 (unat x))"

definition example_font :: truetype_Font where
  "example_font =
     \<lparr>font_Bounds = (\<lambda>scale. \<lparr>XMin = 0, YMin = - 4, XMax = 10, YMax = 16\<rparr>),
      font_Index = ucast,
      font_HMetric = (\<lambda>scale index. \<lparr>AdvanceWidth = 8, LeftSideBearing = 1\<rparr>)\<rparr>"

text \<open>
  The example platform is amd64. There the conversion of a \<^verbatim>\<open>float32\<close> outside the range
  of \<^verbatim>\<open>uint32\<close> goes through a 64-bit integer, of which the low 32 bits are kept, and a
  value that is no 64-bit integer either (NaN and the infinities among them) gives 0:
  \<^verbatim>\<open>uint32(float32(6442450944))\<close> is \<open>2^31\<close>. The runtime makes no slice of more than
  \<open>2^48\<close> bytes; the example machine has the memory for every smaller one.
\<close>

definition conv_amd64 :: "float32 \<Rightarrow> uint32" where
  "conv_amd64 x =
     (case x of
        Fin s m \<Rightarrow>
          (let t = (if s then - \<lfloor>m\<rfloor> else \<lfloor>m\<rfloor>)
           in if - (2 ^ 63) \<le> t \<and> t < 2 ^ 63 then word_of_int t else 0)
      | _ \<Rightarrow> 0)"

definition example_extern :: extern where
  "example_extern =
     \<lparr>glh_Pow2 = Pow2, conv_oor = conv_amd64,
      can_allocate = (\<lambda>w h. 4 * w * h \<le> 2 ^ 48),
      ioutil_ReadFile = (\<lambda>path. Some []),
      freetype_ParseFont = (\<lambda>b. Some example_font)\<rparr>"

text \<open>A font whose bounding box is \<open>2^25\<close> units wide at every scale.\<close>

definition wide_font :: truetype_Font where
  "wide_font =
     \<lparr>font_Bounds = (\<lambda>scale. \<lparr>XMin = 0, YMin = - 4, XMax = 33554432, YMax = 16\<rparr>),
      font_Index = ucast,
      font_HMetric = (\<lambda>scale index. \<lparr>AdvanceWidth = 8, LeftSideBearing = 1\<rparr>)\<rparr>"

text \<open>A font whose bounding box grows with the scale: one em wide and two em high.\<close>

definition em_font :: truetype_Font where
  "em_font =
     \<lparr>font_Bounds = (\<lambda>scale. \<lparr>XMin = 0, YMin = 0, XMax = scale, YMax = 2 * scale\<rparr>),
      font_Index = ucast,
      font_HMetric = (\<lambda>scale index. \<lparr>AdvanceWidth = 8, LeftSideBearing = 1\<rparr>)\<rparr>"

text \<open>A fresh context: blending off with the initial factors, nothing bound, no objects.\<close>

definition gl_init :: gl_context where
  "gl_init =
     \<lparr>blend = False, blendFunc = (GL_ONE, GL_ZERO), currentProgram = 0,
      vertexArrayBinding = 0, arrayBufferBinding = 0, texture2DBinding = 0,
      shaders = {}, programs = {}, buffers = {}, vertexArrays = {}, textures = {},
      nextName = 1, compileStatus = (\<lambda>s. 1), linkStatus = (\<lambda>p. 1), infoLog = (\<lambda>s. []),
      attribLocation = (\<lambda>p name. 0),
      uniformLocation = (\<lambda>p name. if name = ''tex'' then 0 else if name = ''offset'' then 1 else 2),
      issued = []\<rparr>"

text \<open>A renderer whose glyphs all advance by \<^verbatim>\<open>float32(0.1)\<close>, and a context in use by a caller.\<close>

definition example_renderer :: Font where
  "example_renderer =
     \<lparr>program = 3, vs = 0, fs = 0, positionAttrib = 0, colorUniform = 2, offsetUniform = 1,
      vao = 4, vbo = 5, offsets = replicate 96 (float32_of_rat (1 / 10)),
      color = [Fin False 1, Fin False 1, Fin False 1, Fin False 1]\<rparr>"

definition busy_context :: gl_context where
  "busy_context = gl_init\<lparr>blend := True, currentProgram := 7, vertexArrayBinding := 9\<rparr>"

section \<open>The next power of two and the bitmaps of the examples\<close>

lemma pow2_search_spec:
  "n \<le> 2 ^ m \<Longrightarrow> j \<le> m \<Longrightarrow> m \<le> j + fuel \<Longrightarrow>
   \<exists>k. pow2_search fuel (2 ^ j) n = 2 ^ k \<and> n \<le> 2 ^ k \<and> k \<le> m"
proof (induction fuel arbitrary: j)
  case 0
  then have "j = m" by simp
  with 0 show ?case
    by (intro exI [of _ j]) simp
next
  case (Suc fuel)
  show ?case
  proof (cases "n \<le> 2 ^ j")
    case True
    with Suc.prems show ?thesis
      by (intro exI [of _ j]) simp
  next
    case False
    have "j \<noteq> m"
      using False Suc.prems(1) by auto
    then have "Suc j \<le> m" "m \<le> Suc j + fuel"
      using Suc.prems by simp_all
    from Suc.IH [OF Suc.prems(1) this] False show ?thesis
      by simp
  qed
qed


lemma Pow2_uint:
  assumes "2 ^ k < uint x" "uint x \<le> 2 ^ Suc k" "Suc k < 32"
  shows "uint (Pow2 x) = 2 ^ Suc k"
proof -
  have lo: "2 ^ k < unat x"
    using assms(1) by (simp add: unat_eq_nat_uint zless_nat_eq_int_zless del: nat_uint_eq)
  have hi: "unat x \<le> 2 ^ Suc k"
    using assms(2) by (simp add: unat_eq_nat_uint nat_le_iff del: nat_uint_eq)
  from pow2_search_spec [OF hi, of 0 32] assms(3) obtain k' where
    k': "pow2_search 32 1 (unat x) = 2 ^ k'" "unat x \<le> 2 ^ k'" "k' \<le> Suc k"
    by auto
  have "(2 :: nat) ^ k < 2 ^ k'"
    using lo k'(2) by (rule less_le_trans)
  then have "k < k'"
    by (rule power_less_imp_less_exp [rotated]) simp
  with k'(3) have e: "k' = Suc k"
    by simp
  have "(2 :: nat) ^ Suc k < 2 ^ 32"
    using assms(3) by (intro power_strict_increasing) simp_all
  moreover have "uint (word_of_nat p :: uint32) = int p" if "p < 2 ^ 32" for p
    using that by (simp add: unsigned_of_nat take_bit_nat_eq_self)
  ultimately have "uint (word_of_nat (2 ^ Suc k) :: uint32) = int (2 ^ Suc k)"
    by blast
  then have "uint (word_of_nat (2 ^ Suc k) :: uint32) = 2 ^ Suc k"
    by (simp only: of_nat_power of_nat_numeral)
  then show ?thesis
    unfolding Pow2_def k'(1) e .
qed

lemma Pow2_wrap:
  assumes "2 ^ 31 < uint x"
  shows "Pow2 x = 0"
proof -
  have lo: "2 ^ 31 < unat x"
    using assms by (simp add: unat_eq_nat_uint zless_nat_eq_int_zless del: nat_uint_eq)
  have "unat x < 2 ^ 32"
    using unsigned_less [of x, where ?'a = nat] by simp
  then have hi: "unat x \<le> 2 ^ 32"
    by simp
  from pow2_search_spec [OF hi, of 0 32] obtain k' where
    k': "pow2_search 32 1 (unat x) = 2 ^ k'" "unat x \<le> 2 ^ k'" "k' \<le> 32"
    by auto
  have "(2 :: nat) ^ 31 < 2 ^ k'"
    using lo k'(2) by (rule less_le_trans)
  then have "31 < k'"
    by (rule power_less_imp_less_exp [rotated]) simp
  with k'(3) have e: "k' = 32"
    by simp
  show ?thesis
    unfolding Pow2_def k'(1) e by simp
qed

lemma Dx_Rect: "0 \<le> x1 \<Longrightarrow> Dx (Rect 0 y0 x1 y1) = x1"
  by (simp add: Dx_def Rect_def Let_def split: prod.splits if_splits)

lemma Dy_Rect: "0 \<le> y1 \<Longrightarrow> Dy (Rect x0 0 x1 y1) = y1"
  by (simp add: Dy_def Rect_def Let_def split: prod.splits if_splits)

lemma uint32_of_float32_in_range:
  "0 \<le> t \<Longrightarrow> t < 2 ^ 32 \<Longrightarrow> uint32_of_float32 oor (Fin False (of_int t)) = word_of_int t"
  by (simp add: uint32_of_float32_def Let_def)

text \<open>The sizes in the examples.\<close>

lemma example_sizes:
  "required_width example_font 12 = Fin False 960"
  "cell_gh example_font 12 = Fin False 20"
  "required_width em_font 1048576 = Fin False 100663296"
  "cell_gh em_font 1048576 = Fin False 2097152"
  "required_width wide_font 12 = Fin False 3221225472"
  "cell_gh wide_font 12 = Fin False 20"
  by code_simp+

lemma example_extern_simps:
  "glh_Pow2 example_extern = Pow2"
  "can_allocate example_extern w h \<longleftrightarrow> 4 * w * h \<le> 2 ^ 48"
  by (simp_all add: example_extern_def mult.commute)

lemma Pow2_examples:
  "uint (Pow2 960) = 1024"
  "uint (Pow2 20) = 32"
  "uint (Pow2 100663296) = 134217728"
  "uint (Pow2 2097152) = 2097152"
  "uint (Pow2 3221225472) = 0"
  using Pow2_uint [of 9 960] Pow2_uint [of 4 20] Pow2_uint [of 26 100663296]
    Pow2_uint [of 20 2097152] Pow2_wrap [of 3221225472]
  by simp_all

lemma example_rect:
  "atlas_rect example_extern example_font 12 = Rect 0 0 1024 32"
  "atlas_rect example_extern em_font 1048576 = Rect 0 0 134217728 2097152"
  "atlas_rect example_extern wide_font 12 = Rect 0 0 0 32"
  using uint32_of_float32_in_range [of 960 "conv_oor example_extern"]
    uint32_of_float32_in_range [of 20 "conv_oor example_extern"]
    uint32_of_float32_in_range [of 100663296 "conv_oor example_extern"]
    uint32_of_float32_in_range [of 2097152 "conv_oor example_extern"]
    uint32_of_float32_in_range [of 3221225472 "conv_oor example_extern"]
  by (simp_all add: atlas_rect_def example_sizes example_extern_simps Pow2_examples)

lemma example_allocation:
  "can_allocate example_extern (Dx (atlas_rect example_extern example_font 12))
     (Dy (atlas_rect example_extern example_font 12))"
  "\<not> can_allocate example_extern (Dx (atlas_rect example_extern em_font 1048576))
       (Dy (atlas_rect example_extern em_font 1048576))"
  "can_allocate example_extern (Dx (atlas_rect example_extern wide_font 12))
     (Dy (atlas_rect example_extern wide_font 12))"
  by (simp_all add: example_rect Dx_Rect Dy_Rect example_extern_simps)

section \<open>The atlas builder: shape of the result\<close>

lemma sint_succ: "sint (c :: 32 word) \<le> 127 \<Longrightarrow> sint (c + 1) = sint c + 1"
proof -
  assume le: "sint c \<le> 127"
  have "sint (c + 1) = signed_take_bit 31 (sint c + 1)"
    by (simp add: sint_word_ariths)
  also have "\<dots> = sint c + 1"
    using le sint_ge [of c] by (simp add: signed_take_bit_int_eq_self)
  finally show ?thesis .
qed

lemma glyph_gx_0: "glyph_gx gw gx0 0 = gx0"
  by (simp add: glyph_gx_def)

lemma glyph_gx_Suc: "glyph_gx gw gx0 (Suc k) = glyph_gx gw (fadd gx0 gw) k"
  unfolding glyph_gx_def by (simp only: funpow_Suc_right o_apply)

lemma length_quad: "length (quad gw gh w h tw th gx gy) = 4"
  by (simp add: quad_def Let_def)

text \<open>
  The loop started at the character \<open>ch\<close> with \<open>gi = ch - 32\<close> runs to the end without a
  panic, appends one quad per remaining character and fills the table from \<open>gi\<close> on.
\<close>

lemma atlas_loop_run:
  "32 \<le> sint ch \<Longrightarrow> sint ch \<le> 128 \<Longrightarrow> sint gi = sint ch - 32 \<Longrightarrow> length offs = 96 \<Longrightarrow>
   \<exists>offs'. atlas_loop font scale sx gw gh w h tw th ch gi gx gy verts offs =
       Inr (verts @ concat (map (\<lambda>k. quad gw gh w h tw th (glyph_gx gw gx k) gy)
                              [0..<nat (128 - sint ch)]), offs')
     \<and> length offs' = 96
     \<and> (\<forall>j<96. offs' ! j = (if nat (sint gi) \<le> j
                              then advance_of font scale sx (word_of_int (32 + int j))
                              else offs ! j))"
proof (induction font scale sx gw gh w h tw th ch gi gx gy verts offs
       rule: atlas_loop.induct)
  case (1 font scale sx gw gh w h tw th ch gi gx gy verts offs)
  show ?case
  proof (cases "ch \<le>s high")
    case False
    then have "sint ch = 128"
      using "1.prems" by (simp add: word_sle_eq high_def)
    then show ?thesis
      using False "1.prems" by (simp add: atlas_loop.simps [of _ _ _ _ _ _ _ _ _ ch])
  next
    case True
    then have le: "sint ch \<le> 127"
      by (simp add: word_sle_eq high_def)
    have gi_rng: "0 \<le> sint gi" "sint gi < int (length offs)" "sint gi \<le> 95"
      using "1.prems" le by simp_all
    have s1: "sint (ch + 1) = sint ch + 1"
      using le by (rule sint_succ)
    have s2: "sint (gi + 1) = sint gi + 1"
      using gi_rng by (intro sint_succ) simp
    let ?offs = "offs[nat (sint gi) := advance_of font scale sx ch]"
    have ch_eq: "ch = word_of_int (32 + int (nat (sint gi)))"
      using "1.prems" gi_rng by simp
    from "1.IH" [OF True refl refl, of ]
    obtain offs' where
      run: "atlas_loop font scale sx gw gh w h tw th (ch + 1) (gi + 1) (fadd gx gw) gy
              (verts @ quad gw gh w h tw th gx gy) ?offs =
            Inr ((verts @ quad gw gh w h tw th gx gy) @
                 concat (map (\<lambda>k. quad gw gh w h tw th (glyph_gx gw (fadd gx gw) k) gy)
                           [0..<nat (128 - sint (ch + 1))]), offs')"
      and len: "length offs' = 96"
      and ent: "\<forall>j<96. offs' ! j = (if nat (sint (gi + 1)) \<le> j
                              then advance_of font scale sx (word_of_int (32 + int j))
                              else ?offs ! j)"
      using gi_rng "1.prems" s1 s2 le by (auto simp: advance_of_def)
    have n: "nat (128 - sint ch) = Suc (nat (128 - sint (ch + 1)))"
      using s1 le by simp
    have shift: "concat (map (\<lambda>k. quad gw gh w h tw th (glyph_gx gw gx k) gy)
                   [0..<Suc m]) =
                 quad gw gh w h tw th gx gy @
                 concat (map (\<lambda>k. quad gw gh w h tw th (glyph_gx gw (fadd gx gw) k) gy) [0..<m])"
      for m
      by (simp add: upt_conv_Cons map_Suc_upt [symmetric] comp_def glyph_gx_Suc glyph_gx_0
               del: upt_Suc)
    have "atlas_loop font scale sx gw gh w h tw th ch gi gx gy verts offs =
          atlas_loop font scale sx gw gh w h tw th (ch + 1) (gi + 1) (fadd gx gw) gy
              (verts @ quad gw gh w h tw th gx gy) ?offs"
      using True gi_rng
      by (subst atlas_loop.simps) (simp add: advance_of_def Let_def)
    moreover have "\<forall>j<96. offs' ! j = (if nat (sint gi) \<le> j
                              then advance_of font scale sx (word_of_int (32 + int j))
                              else offs ! j)"
    proof (intro allI impI)
      fix j :: nat assume j: "j < 96"
      show "offs' ! j = (if nat (sint gi) \<le> j
                              then advance_of font scale sx (word_of_int (32 + int j))
                              else offs ! j)"
      proof (cases "j = nat (sint gi)")
        case True
        have chj: "ch = word_of_int (32 + int j)"
          unfolding True by (rule ch_eq)
        have "offs' ! j = ?offs ! j"
          using ent j s2 gi_rng True by (simp add: nat_add_distrib)
        also have "\<dots> = advance_of font scale sx ch"
          using True j "1.prems"(4) by simp
        finally show ?thesis
          using True chj by simp
      next
        case False
        then show ?thesis
          using ent j s2 gi_rng by (auto simp: nat_add_distrib)
      qed
    qed
    moreover have "concat (map (\<lambda>k. quad gw gh w h tw th (glyph_gx gw gx k) gy)
                   [0..<nat (128 - sint ch)]) =
                 quad gw gh w h tw th gx gy @
                 concat (map (\<lambda>k. quad gw gh w h tw th (glyph_gx gw (fadd gx gw) k) gy)
                   [0..<nat (128 - sint (ch + 1))])"
      by (subst n) (rule shift)
    ultimately show ?thesis
      using run len by simp
  qed
qed

text \<open>
  The whole result of \<^verbatim>\<open>generateAtlas\<close>: nothing when the bitmap cannot be allocated, and
  otherwise what the loop returns.
\<close>

lemma generateAtlas_unfold:
  "generateAtlas ext font scale dpi width height =
     (if can_allocate ext (Dx (atlas_rect ext font scale)) (Dy (atlas_rect ext font scale)) then
        (case atlas_loop font scale (clip_sx width) (cell_gw font scale) (cell_gh font scale)
               (clip_w font scale width) (clip_h font scale height)
               (tex_width ext font scale) (tex_height ext font scale) low 0
               (Fin False 0) (Fin False 0) [] (replicate 96 (Fin False 0)) of
           Inl e \<Rightarrow> Inl e
         | Inr (verts, offs') \<Rightarrow> Inr (verts, \<lparr>rect = atlas_rect ext font scale\<rparr>, offs'))
      else Inl AllocationFailed)"
proof -
  have g: "sint glyphCount = 96"
    by (simp add: glyphCount_def high_def low_def)
  show ?thesis
    unfolding generateAtlas_def NewRGBA_def Let_def g cell_gw_def cell_gh_def clip_sx_def
          clip_sy_def clip_w_def clip_h_def tex_width_def tex_height_def atlas_rect_def
          required_width_def
    by simp
qed

lemma generateAtlas_fails:
  "\<not> can_allocate ext (Dx (atlas_rect ext font scale)) (Dy (atlas_rect ext font scale)) \<Longrightarrow>
   generateAtlas ext font scale dpi width height = Inl AllocationFailed"
  by (simp add: generateAtlas_unfold)

lemma generateAtlas_result:
  assumes "can_allocate ext (Dx (atlas_rect ext font scale)) (Dy (atlas_rect ext font scale))"
  shows "\<exists>offs. generateAtlas ext font scale dpi width height =
       Inr (concat (map (glyph_quad ext font scale width height) [0..<96]),
            \<lparr>rect = atlas_rect ext font scale\<rparr>, offs)
     \<and> length offs = 96
     \<and> (\<forall>j<96. offs ! j = advance_of font scale (clip_sx width) (word_of_int (32 + int j)))"
proof -
  have pre: "32 \<le> sint low" "sint low \<le> 128" "sint (0 :: int32) = sint low - 32"
    "length (replicate 96 (Fin False 0)) = 96"
    by (simp_all add: low_def)
  have n: "nat (128 - sint low) = 96"
    by (simp add: low_def)
  from atlas_loop_run [OF pre, of font scale "clip_sx width"
        "cell_gw font scale" "cell_gh font scale" "clip_w font scale width"
        "clip_h font scale height" "tex_width ext font scale" "tex_height ext font scale"
        "Fin False 0" "Fin False 0" "[]"]
  obtain offs' where
    run: "atlas_loop font scale (clip_sx width) (cell_gw font scale) (cell_gh font scale)
            (clip_w font scale width) (clip_h font scale height)
            (tex_width ext font scale) (tex_height ext font scale) low 0
            (Fin False 0) (Fin False 0) [] (replicate 96 (Fin False 0)) =
          Inr ([] @ concat (map (\<lambda>k. quad (cell_gw font scale) (cell_gh font scale)
                 (clip_w font scale width) (clip_h font scale height)
                 (tex_width ext font scale) (tex_height ext font scale)
                 (glyph_gx (cell_gw font scale) (Fin False 0) k) (Fin False 0))
                 [0..<nat (128 - sint low)]), offs')"
    and len: "length offs' = 96"
    and ent: "\<forall>j<96. offs' ! j = (if nat (sint (0 :: int32)) \<le> j
                then advance_of font scale (clip_sx width) (word_of_int (32 + int j))
                else replicate 96 (Fin False 0) ! j)"
    by blast
  have q: "(\<lambda>k. quad (cell_gw font scale) (cell_gh font scale)
                 (clip_w font scale width) (clip_h font scale height)
                 (tex_width ext font scale) (tex_height ext font scale)
                 (glyph_gx (cell_gw font scale) (Fin False 0) k) (Fin False 0)) =
           glyph_quad ext font scale width height"
    by (rule ext) (simp add: glyph_quad_def)
  have "generateAtlas ext font scale dpi width height =
        Inr (concat (map (glyph_quad ext font scale width height) [0..<96]),
             \<lparr>rect = atlas_rect ext font scale\<rparr>, offs')"
    unfolding generateAtlas_unfold run q n using assms by simp
  moreover have "\<forall>j<96. offs' ! j =
      advance_of font scale (clip_sx width) (word_of_int (32 + int j))"
    using ent by simp
  ultimately show ?thesis
    using len by blast
qed

text \<open>The platform \<open>with_memory ext\<close> differs from \<open>ext\<close> in the allocation only.\<close>

lemma with_memory_simps:
  "glh_Pow2 (with_memory ext) = glh_Pow2 ext"
  "conv_oor (with_memory ext) = conv_oor ext"
  "can_allocate (with_memory ext) a b"
  by (simp_all add: with_memory_def)

lemma atlas_rect_with_memory: "atlas_rect (with_memory ext) font scale = atlas_rect ext font scale"
  by (simp add: atlas_rect_def with_memory_simps)

lemma glyph_quad_with_memory:
  "glyph_quad (with_memory ext) font scale width height = glyph_quad ext font scale width height"
  by (rule ext) (simp add: glyph_quad_def tex_width_def tex_height_def atlas_rect_with_memory)

lemma generateAtlas_with_memory:
  "\<exists>offs. generateAtlas (with_memory ext) font scale dpi width height =
       Inr (concat (map (glyph_quad ext font scale width height) [0..<96]),
            \<lparr>rect = atlas_rect ext font scale\<rparr>, offs)
     \<and> length offs = 96
     \<and> (\<forall>j<96. offs ! j = advance_of font scale (clip_sx width) (word_of_int (32 + int j)))"
  using generateAtlas_result [of "with_memory ext" font scale dpi width height]
  by (simp add: with_memory_simps glyph_quad_with_memory atlas_rect_with_memory)


lemma length_glyph_quad: "length (glyph_quad ext font scale width height i) = 4"
  by (simp add: glyph_quad_def length_quad)

lemma length_concat_quads:
  "length (concat (map (glyph_quad ext font scale width height) [0..<n])) = 4 * n"
  by (induction n) (simp_all add: length_glyph_quad)

lemma slice_concat_quads:
  "i < n \<Longrightarrow>
   take 4 (drop (4 * i) (concat (map (glyph_quad ext font scale width height) [0..<n]))) =
   glyph_quad ext font scale width height i"
proof (induction n)
  case 0
  then show ?case by simp
next
  case (Suc n)
  show ?case
  proof (cases "i < n")
    case True
    then have "4 * i + 4 \<le> 4 * n" by simp
    then show ?thesis
      using Suc.IH [OF True] by (simp add: length_concat_quads)
  next
    case False
    then have "i = n" using Suc.prems by simp
    then show ?thesis
      by (simp add: length_concat_quads length_glyph_quad)
  qed
qed

text \<open>
  Claim C1, as amended. For every font, scale, dpi and viewport for which the bitmap
  can be allocated, \<^verbatim>\<open>generateAtlas\<close> returns (it does not panic) 384 vertices and a
  table of 96 advances; the vertices are the quads of the glyphs 0 to 95 in this order,
  so the four vertices of the glyph \<open>i\<close> are the positions \<open>4i\<close> to \<open>4i + 3\<close>.
\<close>

theorem generateAtlas_shape:
  assumes "can_allocate ext (Dx (atlas_rect ext font scale)) (Dy (atlas_rect ext font scale))"
  shows "\<exists>verts img offs.
     generateAtlas ext font scale dpi width height = Inr (verts, img, offs)
     \<and> length verts = 384 \<and> length offs = 96
     \<and> verts = concat (map (glyph_quad ext font scale width height) [0..<96])
     \<and> (\<forall>i<96. take 4 (drop (4 * i) verts) = glyph_quad ext font scale width height i)"
proof -
  obtain offs where
    "generateAtlas ext font scale dpi width height =
       Inr (concat (map (glyph_quad ext font scale width height) [0..<96]),
            \<lparr>rect = atlas_rect ext font scale\<rparr>, offs)"
    and "length offs = 96"
    using generateAtlas_result [OF assms, of dpi width height] by blast
  then show ?thesis
    by (simp add: length_concat_quads slice_concat_quads)
qed

theorem generateAtlas_shape_witness:
  "can_allocate example_extern (Dx (atlas_rect example_extern example_font 12))
     (Dy (atlas_rect example_extern example_font 12)) \<and>
   (\<exists>verts img offs.
     generateAtlas example_extern example_font 12 (Fin False 72) (Fin False 800) (Fin False 600) =
       Inr (verts, img, offs)
     \<and> length verts = 384 \<and> length offs = 96
     \<and> (1 :: nat) < 96
     \<and> take 4 (drop (4 * 1) verts) =
         glyph_quad example_extern example_font 12 (Fin False 800) (Fin False 600) 1)"
proof -
  from generateAtlas_shape [OF example_allocation(1), of "Fin False 72"
      "Fin False 800" "Fin False 600"]
  obtain verts img offs where
    r: "generateAtlas example_extern example_font 12 (Fin False 72) (Fin False 800)
          (Fin False 600) = Inr (verts, img, offs)"
      "length verts = 384" "length offs = 96"
    and q: "\<forall>i<96. take 4 (drop (4 * i) verts) =
          glyph_quad example_extern example_font 12 (Fin False 800) (Fin False 600) i"
    by blast
  have "(1 :: nat) < 96" by simp
  with q have "take 4 (drop (4 * 1) verts) =
      glyph_quad example_extern example_font 12 (Fin False 800) (Fin False 600) 1"
    by blast
  with r have e: "\<exists>verts img offs.
     generateAtlas example_extern example_font 12 (Fin False 72) (Fin False 800) (Fin False 600) =
       Inr (verts, img, offs)
     \<and> length verts = 384 \<and> length offs = 96
     \<and> (1 :: nat) < 96
     \<and> take 4 (drop (4 * 1) verts) =
         glyph_quad example_extern example_font 12 (Fin False 800) (Fin False 600) 1"
    by (intro exI [of _ verts] exI [of _ img] exI [of _ offs]) simp
  show ?thesis
    by (rule conjI [OF example_allocation(1) e])
qed

text \<open>
  Claim C1 as stated fails where the bitmap is too large to allocate. At the scale
  \<open>2^20\<close> the cells of a font one em wide and two em high are \<open>2^20\<close> by \<open>2^21\<close> pixels:
  the bitmap is \<open>2^27\<close> by \<open>2^21\<close> pixels, its buffer \<open>2^50\<close> bytes, more than the runtime
  makes, and \<^verbatim>\<open>generateAtlas\<close> panics in \<^verbatim>\<open>image.NewRGBA\<close> before the loop.
\<close>

theorem generateAtlas_allocation_counterexample:
  "atlas_rect example_extern em_font 1048576 = Rect 0 0 134217728 2097152 \<and>
   generateAtlas example_extern em_font 1048576 (Fin False 72) (Fin False 800) (Fin False 600) =
     Inl AllocationFailed"
  using generateAtlas_fails [OF example_allocation(2), of "Fin False 72" "Fin False 800"
      "Fin False 600"]
  by (simp add: example_rect)

section \<open>The atlas builder: the quads share their clip-space corners\<close>

lemma atlas_verts_eq:
  "atlas_verts ext font scale dpi width height =
   concat (map (glyph_quad ext font scale width height) [0..<96])"
  using generateAtlas_with_memory [of ext font scale dpi width height]
  by (auto simp: atlas_verts_def)

lemma atlas_verts_nth:
  assumes "i < 96" "k < 4"
  shows "atlas_verts ext font scale dpi width height ! (4 * i + k) =
         glyph_quad ext font scale width height i ! k"
proof -
  let ?vs = "atlas_verts ext font scale dpi width height"
  have len: "length ?vs = 384"
    by (simp add: atlas_verts_eq length_concat_quads)
  have "glyph_quad ext font scale width height i ! k = take 4 (drop (4 * i) ?vs) ! k"
    using assms by (simp add: atlas_verts_eq slice_concat_quads)
  also have "\<dots> = ?vs ! (4 * i + k)"
    using assms len by simp
  finally show ?thesis by simp
qed

lemma quad_corner_xy:
  "k < 4 \<Longrightarrow>
   vx (quad gw gh w h tw th gx gy ! k) = vx (quad gw gh w h tw th gx' gy' ! k) \<and>
   vy (quad gw gh w h tw th gx gy ! k) = vy (quad gw gh w h tw th gx' gy' ! k)"
proof -
  assume "k < 4"
  then consider "k = 0" | "k = 1" | "k = 2" | "k = 3"
    by linarith
  then show ?thesis
    by cases (simp_all add: quad_def Let_def)
qed

text \<open>
  Claim C6. For any two glyphs \<open>i\<close> and \<open>j\<close> and any corner \<open>k\<close>, the \<open>k\<close>-th vertex of the
  glyph \<open>i\<close> and the \<open>k\<close>-th vertex of the glyph \<open>j\<close> have the same \<open>x\<close> and the same \<open>y\<close>:
  the quads differ in the texture coordinates only.
\<close>

theorem quads_congruent:
  "i < 96 \<Longrightarrow> j < 96 \<Longrightarrow> k < 4 \<Longrightarrow>
   vx (atlas_verts ext font scale dpi width height ! (4 * i + k)) =
     vx (atlas_verts ext font scale dpi width height ! (4 * j + k)) \<and>
   vy (atlas_verts ext font scale dpi width height ! (4 * i + k)) =
     vy (atlas_verts ext font scale dpi width height ! (4 * j + k))"
  by (simp add: atlas_verts_nth glyph_quad_def quad_corner_xy)

theorem quads_congruent_witness:
  "(0 :: nat) < 96 \<and> (65 :: nat) < 96 \<and> (3 :: nat) < 4 \<and>
   vx (atlas_verts example_extern example_font 12 (Fin False 72) (Fin False 800)
         (Fin False 600) ! (4 * 0 + 3)) =
     vx (atlas_verts example_extern example_font 12 (Fin False 72) (Fin False 800)
         (Fin False 600) ! (4 * 65 + 3)) \<and>
   vy (atlas_verts example_extern example_font 12 (Fin False 72) (Fin False 800)
         (Fin False 600) ! (4 * 0 + 3)) =
     vy (atlas_verts example_extern example_font 12 (Fin False 72) (Fin False 800)
         (Fin False 600) ! (4 * 65 + 3))"
  using quads_congruent [of 0 65 3 example_extern example_font 12 "Fin False 72"
      "Fin False 800" "Fin False 600"]
  by simp

section \<open>The draw operation\<close>

lemma sint_sub_32:
  "sint ((ch :: rune) - 32) = signed_take_bit 31 (sint ch - 32)"
  by (simp add: sint_word_ariths)

lemma sint_sub_32_nowrap: "- (2 ^ 31) + 32 \<le> sint (ch :: rune) \<Longrightarrow> sint (ch - 32) = sint ch - 32"
proof -
  assume lo: "- (2 ^ 31) + 32 \<le> sint ch"
  have "sint ch < 2 ^ 31"
    using sint_lt [of ch] by simp
  then show ?thesis
    using lo by (simp add: sint_sub_32 signed_take_bit_int_eq_self)
qed

lemma sint_sub_32_wrap:
  "sint (ch :: rune) < - (2 ^ 31) + 32 \<Longrightarrow> 2 ^ 31 - 32 \<le> sint (ch - 32)"
proof -
  assume hi: "sint ch < - (2 ^ 31) + 32"
  have lo: "- (2 ^ 31) \<le> sint ch"
    using sint_ge [of ch] by simp
  have "sint ch - 32 < - (2 ^ 31)"
    using hi by simp
  then have "sint ch - 32 + 2 ^ Suc 31 \<le> signed_take_bit 31 (sint ch - 32)"
    by (rule signed_take_bit_int_greater_eq)
  then show ?thesis
    using lo by (simp add: sint_sub_32)
qed

lemma index_check:
  assumes "length offs \<le> 2 ^ 31 - 32"
  shows "(0 \<le> sint ((ch :: rune) - 32) \<and> sint (ch - 32) < int (length offs)) \<longleftrightarrow>
         (32 \<le> sint ch \<and> sint ch - 32 < int (length offs))"
proof (cases "- (2 ^ 31) + 32 \<le> sint ch")
  case True
  then show ?thesis
    by (simp add: sint_sub_32_nowrap)
next
  case False
  then have "2 ^ 31 - 32 \<le> sint (ch - 32)"
    by (intro sint_sub_32_wrap) simp
  moreover have "int (length offs) \<le> 2 ^ 31 - 32"
    using assms by simp
  ultimately show ?thesis
    using False by simp
qed

lemma gl_log_only:
  "gl (Uniform2f l a b) g = g\<lparr>issued := issued g @ [Uniform2f l a b]\<rparr>"
  "gl (DrawArrays m f n) g = g\<lparr>issued := issued g @ [DrawArrays m f n]\<rparr>"
  "gl (Uniform4fv l k v) g = g\<lparr>issued := issued g @ [Uniform4fv l k v]\<rparr>"
  by (simp_all add: gl_def)

lemma Printf_loop_in_table:
  "\<forall>ch\<in>set s. in_table this ch \<Longrightarrow>
   Printf_loop this x y s off g = Inr (g\<lparr>issued := issued g @ draw_calls this x y s off\<rparr>)"
proof (induction s arbitrary: off g)
  case Nil
  then show ?case by simp
next
  case (Cons ch s)
  from Cons.prems have t: "32 \<le> sint ch" "sint ch - 32 < int (length (offsets this))"
    by (simp_all add: in_table_def)
  have i: "sint (ch - 32) = sint ch - 32"
    using t by (intro sint_sub_32_nowrap) simp
  have rest: "\<forall>c\<in>set s. in_table this c"
    using Cons.prems by simp
  show ?case
    using t by (simp add: i Let_def gl_log_only Cons.IH [OF rest])
qed

lemma Printf_loop_log:
  "Printf_loop this x y s off g = Inr g' \<Longrightarrow>
   \<exists>ds. g' = g\<lparr>issued := issued g @ ds\<rparr> \<and> length ds = 2 * length s \<and> list_all glyph_call ds"
proof (induction s arbitrary: off g)
  case Nil
  then show ?case by auto
next
  case (Cons ch s)
  let ?i = "sint (ch - 32)"
  let ?g2 = "g\<lparr>issued := issued g @ [Uniform2f (offsetUniform this) (fadd x off) y,
                 DrawArrays GL_TRIANGLE_STRIP (?i * 4) 4]\<rparr>"
  from Cons.prems have ok: "0 \<le> ?i \<and> ?i < int (length (offsets this))"
    by (auto simp: Let_def split: if_splits)
  with Cons.prems have "Printf_loop this x y s (fadd off (offsets this ! nat ?i)) ?g2 = Inr g'"
    by (simp add: Let_def gl_log_only)
  from Cons.IH [OF this] obtain ds where
    ds: "g' = ?g2\<lparr>issued := issued ?g2 @ ds\<rparr>" "length ds = 2 * length s" "list_all glyph_call ds"
    by blast
  let ?ds = "[Uniform2f (offsetUniform this) (fadd x off) y,
              DrawArrays GL_TRIANGLE_STRIP (?i * 4) 4] @ ds"
  have "g' = g\<lparr>issued := issued g @ ?ds\<rparr>"
    using ds(1) by simp
  moreover have "length ?ds = 2 * length (ch # s)"
    using ds(2) by simp
  moreover have "list_all glyph_call ?ds"
    using ds(3) by (simp add: glyph_call_def)
  ultimately show ?case by blast
qed

lemma Printf_loop_outside:
  "length (offsets this) \<le> 2 ^ 31 - 32 \<Longrightarrow> \<exists>ch\<in>set s. \<not> in_table this ch \<Longrightarrow>
   Printf_loop this x y s off g = Inl IndexOutOfRange"
proof (induction s arbitrary: off g)
  case Nil
  then show ?case by simp
next
  case (Cons ch s)
  show ?case
  proof (cases "in_table this ch")
    case True
    then have "\<exists>c\<in>set s. \<not> in_table this c"
      using Cons.prems(2) by auto
    from Cons.IH [OF Cons.prems(1) this] show ?thesis
      by (simp add: Let_def)
  next
    case False
    then have "\<not> (0 \<le> sint (ch - 32) \<and> sint (ch - 32) < int (length (offsets this)))"
      using index_check [OF Cons.prems(1), of ch] by (simp add: in_table_def)
    then show ?thesis
      by (auto simp: Let_def)
  qed
qed

lemma Printf_start:
  "gl (Uniform4fv (colorUniform this) 1 (color this))
     (gl (VertexArray_Bind (vao this))
       (gl (Program_Use (program this))
         (gl (BlendFunc GL_SRC_ALPHA GL_ONE_MINUS_SRC_ALPHA) (gl (Enable GL_BLEND) g)))) =
   g\<lparr>blend := True, blendFunc := (GL_SRC_ALPHA, GL_ONE_MINUS_SRC_ALPHA),
     currentProgram := program this, vertexArrayBinding := vao this,
     issued := issued g @ Printf_prologue this\<rparr>"
  by (simp add: gl_def Printf_prologue_def)

lemma Printf_finish:
  "gl (Disable GL_BLEND) (gl (Program_Unuse (program this)) (gl (VertexArray_Unbind (vao this))
     (g\<lparr>blend := True, blendFunc := (GL_SRC_ALPHA, GL_ONE_MINUS_SRC_ALPHA),
        currentProgram := program this, vertexArrayBinding := vao this,
        issued := issued g @ Printf_prologue this @ ds\<rparr>))) =
   Printf_final this ds g"
  by (simp add: gl_def Printf_final_def Printf_epilogue_def)

lemma Printf_unfold:
  "Printf this x y s g =
     (case Printf_loop this x y s (Fin False 0)
             (g\<lparr>blend := True, blendFunc := (GL_SRC_ALPHA, GL_ONE_MINUS_SRC_ALPHA),
               currentProgram := program this, vertexArrayBinding := vao this,
               issued := issued g @ Printf_prologue this\<rparr>) of
        Inl e \<Rightarrow> Inl e
      | Inr g6 \<Rightarrow> Inr (gl (Disable GL_BLEND) (gl (Program_Unuse (program this))
                     (gl (VertexArray_Unbind (vao this)) g6))))"
  unfolding Printf_def Let_def Printf_start by simp

lemma Printf_in_table:
  assumes "\<forall>ch\<in>set s. in_table this ch"
  shows "Printf this x y s g = Inr (Printf_final this (draw_calls this x y s (Fin False 0)) g)"
  unfolding Printf_unfold Printf_loop_in_table [OF assms]
  using Printf_finish [of this g "draw_calls this x y s (Fin False 0)"] by simp

lemma Printf_Inr:
  assumes "Printf this x y s g = Inr g'"
  shows "\<exists>ds. g' = Printf_final this ds g \<and> length ds = 2 * length s \<and> list_all glyph_call ds"
proof -
  let ?g5 = "g\<lparr>blend := True, blendFunc := (GL_SRC_ALPHA, GL_ONE_MINUS_SRC_ALPHA),
               currentProgram := program this, vertexArrayBinding := vao this,
               issued := issued g @ Printf_prologue this\<rparr>"
  from assms obtain g6 where
    loop: "Printf_loop this x y s (Fin False 0) ?g5 = Inr g6"
    and g': "g' = gl (Disable GL_BLEND) (gl (Program_Unuse (program this))
                     (gl (VertexArray_Unbind (vao this)) g6))"
    unfolding Printf_unfold by (auto split: sum.splits)
  from Printf_loop_log [OF loop] obtain ds where
    ds: "g6 = ?g5\<lparr>issued := issued ?g5 @ ds\<rparr>" "length ds = 2 * length s"
      "list_all glyph_call ds"
    by blast
  have "g' = Printf_final this ds g"
    unfolding g' ds(1) using Printf_finish [of this g ds] by simp
  then show ?thesis
    using ds by blast
qed

lemma Printf_outside:
  assumes "length (offsets this) \<le> 2 ^ 31 - 32" "\<exists>ch\<in>set s. \<not> in_table this ch"
  shows "Printf this x y s g = Inl IndexOutOfRange"
  unfolding Printf_unfold Printf_loop_outside [OF assms] by simp

lemma tenth_from_zero:
  "fadd (Fin False 0) (float32_of_rat (1 / 10)) = float32_of_rat (1 / 10)"
  by code_simp

lemma tenth_twice:
  "fadd (float32_of_rat (1 / 10)) (float32_of_rat (1 / 10)) = float32_of_rat (2 / 10)"
  by code_simp

lemma draw_calls_AAA:
  assumes "offsets this ! 33 = float32_of_rat (1 / 10)"
  shows "draw_calls this x y [65, 65, 65] (Fin False 0) =
     [Uniform2f (offsetUniform this) (fadd x (Fin False 0)) y,
      DrawArrays GL_TRIANGLE_STRIP 132 4,
      Uniform2f (offsetUniform this) (fadd x (float32_of_rat (1 / 10))) y,
      DrawArrays GL_TRIANGLE_STRIP 132 4,
      Uniform2f (offsetUniform this) (fadd x (float32_of_rat (2 / 10))) y,
      DrawArrays GL_TRIANGLE_STRIP 132 4]"
proof -
  have i: "nat (sint (65 :: rune) - 32) = 33" "(sint (65 :: rune) - 32) * 4 = 132"
    by simp_all
  show ?thesis
    by (simp only: draw_calls.simps i assms tenth_from_zero tenth_twice append.simps)
qed

text \<open>
  Claim C2. When every character of the formatted string has an entry in the advance
  table, \<^verbatim>\<open>Printf\<close> returns and the commands it issued are its prologue, then for each
  character in order the offset uniform set to \<open>(x + runningOffset, y)\<close> and one triangle
  strip of 4 vertices from the vertex \<open>4 * (code - 32)\<close>, the running offset growing by
  the table entry of the character, then its epilogue. For the string \<^verbatim>\<open>AAA\<close> and the
  advance \<^verbatim>\<open>float32(0.1)\<close> of the glyph \<^verbatim>\<open>A\<close> these are three draws from the vertex 132,
  at \<open>x + 0\<close>, \<open>x + 0.1\<close> and \<open>x + 0.2\<close>.
\<close>

theorem Printf_draw_protocol:
  "\<forall>ch\<in>set s. in_table this ch \<Longrightarrow>
   \<exists>g'. Printf this x y s g = Inr g'
     \<and> issued g' = issued g @ Printf_prologue this @ draw_calls this x y s (Fin False 0) @
         Printf_epilogue this
     \<and> (s = [65, 65, 65] \<and> offsets this ! 33 = float32_of_rat (1 / 10) \<longrightarrow>
          draw_calls this x y s (Fin False 0) =
            [Uniform2f (offsetUniform this) (fadd x (Fin False 0)) y,
             DrawArrays GL_TRIANGLE_STRIP 132 4,
             Uniform2f (offsetUniform this) (fadd x (float32_of_rat (1 / 10))) y,
             DrawArrays GL_TRIANGLE_STRIP 132 4,
             Uniform2f (offsetUniform this) (fadd x (float32_of_rat (2 / 10))) y,
             DrawArrays GL_TRIANGLE_STRIP 132 4])"
proof -
  assume t: "\<forall>ch\<in>set s. in_table this ch"
  have "Printf this x y s g = Inr (Printf_final this (draw_calls this x y s (Fin False 0)) g)"
    using t by (rule Printf_in_table)
  moreover have "issued (Printf_final this (draw_calls this x y s (Fin False 0)) g) =
      issued g @ Printf_prologue this @ draw_calls this x y s (Fin False 0) @
         Printf_epilogue this"
    by (simp add: Printf_final_def)
  ultimately show ?thesis
    using draw_calls_AAA [of this x y] by blast
qed

lemma example_in_table: "in_table example_renderer 65"
  by (simp add: in_table_def example_renderer_def)

lemma example_entry: "offsets example_renderer ! 33 = float32_of_rat (1 / 10)"
  by (simp add: example_renderer_def)

theorem Printf_draw_protocol_witness:
  "in_table example_renderer 65 \<and>
   (\<exists>g'. Printf example_renderer (Fin True (1 / 2)) (Fin False 0) [65, 65, 65] gl_init = Inr g'
     \<and> issued g' = issued gl_init @ Printf_prologue example_renderer @
         [Uniform2f (offsetUniform example_renderer) (fadd (Fin True (1 / 2)) (Fin False 0))
            (Fin False 0),
          DrawArrays GL_TRIANGLE_STRIP 132 4,
          Uniform2f (offsetUniform example_renderer)
            (fadd (Fin True (1 / 2)) (float32_of_rat (1 / 10))) (Fin False 0),
          DrawArrays GL_TRIANGLE_STRIP 132 4,
          Uniform2f (offsetUniform example_renderer)
            (fadd (Fin True (1 / 2)) (float32_of_rat (2 / 10))) (Fin False 0),
          DrawArrays GL_TRIANGLE_STRIP 132 4] @
         Printf_epilogue example_renderer)"
proof -
  have t: "\<forall>ch\<in>set [65, 65, 65]. in_table example_renderer ch"
    using example_in_table by simp
  from Printf_draw_protocol [OF t, of "Fin True (1 / 2)" "Fin False 0" gl_init]
  show ?thesis
    using example_in_table example_entry by auto
qed

text \<open>
  Claim C10. For a renderer with the 96-entry table, \<^verbatim>\<open>Printf\<close> returns when every
  character of the formatted string is in 32..127, and panics with an index out of
  range when some character is below 32 or above 127: nothing guards the read
  \<^verbatim>\<open>this.offsets[ch-32]\<close>.
\<close>

theorem Printf_panics_outside_table:
  "length (offsets this) = 96 \<Longrightarrow>
   ((\<forall>ch\<in>set s. 32 \<le> sint ch \<and> sint ch \<le> 127) \<longrightarrow> (\<exists>g'. Printf this x y s g = Inr g')) \<and>
   ((\<exists>ch\<in>set s. sint ch < 32 \<or> 127 < sint ch) \<longrightarrow> Printf this x y s g = Inl IndexOutOfRange)"
proof -
  assume len: "length (offsets this) = 96"
  have t: "in_table this ch \<longleftrightarrow> 32 \<le> sint ch \<and> sint ch \<le> 127" for ch
    using len by (auto simp: in_table_def)
  have "\<forall>ch\<in>set s. 32 \<le> sint ch \<and> sint ch \<le> 127 \<Longrightarrow> \<exists>g'. Printf this x y s g = Inr g'"
    using Printf_in_table [of s this x y g] by (simp add: t)
  moreover have "\<exists>ch\<in>set s. sint ch < 32 \<or> 127 < sint ch \<Longrightarrow>
      Printf this x y s g = Inl IndexOutOfRange"
  proof -
    assume "\<exists>ch\<in>set s. sint ch < 32 \<or> 127 < sint ch"
    then obtain ch where "ch \<in> set s" "sint ch < 32 \<or> 127 < sint ch"
      by blast
    then have "ch \<in> set s" "\<not> in_table this ch"
      unfolding t by auto
    then have "\<exists>ch\<in>set s. \<not> in_table this ch"
      by blast
    moreover have "length (offsets this) \<le> 2 ^ 31 - 32"
      using len by simp
    ultimately show ?thesis
      by (intro Printf_outside)
  qed
  ultimately show ?thesis by blast
qed

theorem Printf_panics_outside_table_witness:
  "length (offsets example_renderer) = 96 \<and>
   32 \<le> sint (72 :: rune) \<and> sint (72 :: rune) \<le> 127 \<and>
   32 \<le> sint (105 :: rune) \<and> sint (105 :: rune) \<le> 127 \<and>
   (\<exists>g'. Printf example_renderer (Fin False 0) (Fin False 0) [72, 105] gl_init = Inr g') \<and>
   sint (10 :: rune) < 32 \<and>
   Printf example_renderer (Fin False 0) (Fin False 0) [72, 10] gl_init = Inl IndexOutOfRange"
proof -
  have len: "length (offsets example_renderer) = 96"
    by (simp add: example_renderer_def)
  show ?thesis
    using len
      Printf_panics_outside_table [OF len, of "[72, 105]" "Fin False 0" "Fin False 0" gl_init]
      Printf_panics_outside_table [OF len, of "[72, 10]" "Fin False 0" "Fin False 0" gl_init]
    by simp
qed

text \<open>
  Claim C8, as amended. \<^verbatim>\<open>Printf\<close> enables blending with the factors (SRC_ALPHA,
  ONE_MINUS_SRC_ALPHA) before it draws and disables it afterwards. It does not restore
  what it found: when it returns, blending is off, the factors are the ones it set, no
  program is in use and no vertex array is bound, whatever the caller had; the rest of
  the context is as before, and the commands issued are the prologue, two commands per
  character and the epilogue. For the empty string it always returns, issues the
  prologue and the epilogue only (no draw), and leaves blending off, which is the state
  before the call when blending was off before.
\<close>

theorem Printf_blend_bracket:
  "(Printf this x y s g = Inr g' \<longrightarrow>
      (\<exists>ds. g' = Printf_final this ds g \<and> length ds = 2 * length s \<and> list_all glyph_call ds)
      \<and> \<not> blend g') \<and>
   Printf this x y [] g = Inr (Printf_final this [] g) \<and>
   issued (Printf_final this [] g) = issued g @ Printf_prologue this @ Printf_epilogue this \<and>
   (\<not> blend g \<longrightarrow> blend (Printf_final this [] g) = blend g)"
proof -
  have "Printf this x y s g = Inr g' \<Longrightarrow>
      (\<exists>ds. g' = Printf_final this ds g \<and> length ds = 2 * length s \<and> list_all glyph_call ds)
      \<and> \<not> blend g'"
    using Printf_Inr [of this x y s g g'] by (auto simp: Printf_final_def)
  moreover have "Printf this x y [] g = Inr (Printf_final this [] g)"
    using Printf_in_table [of "[]" this x y g] by simp
  ultimately show ?thesis
    by (auto simp: Printf_final_def)
qed

theorem Printf_blend_bracket_witness:
  "Printf example_renderer (Fin False 0) (Fin False 0) [] gl_init =
     Inr (Printf_final example_renderer [] gl_init) \<and>
   \<not> blend gl_init \<and>
   (\<exists>ds. Printf_final example_renderer [] gl_init = Printf_final example_renderer ds gl_init
      \<and> length ds = 2 * length ([] :: rune list) \<and> list_all glyph_call ds) \<and>
   \<not> blend (Printf_final example_renderer [] gl_init) \<and>
   blend (Printf_final example_renderer [] gl_init) = blend gl_init"
  using Printf_blend_bracket [of example_renderer "Fin False 0" "Fin False 0" "[]" gl_init
      "Printf_final example_renderer [] gl_init"]
  by (simp add: gl_init_def)

text \<open>
  Claim C8 as stated fails for a caller that has blending on, a program in use and a
  vertex array bound: after drawing the empty string all three differ from before, and
  so do the blend factors.
\<close>

theorem Printf_state_counterexample:
  "Printf example_renderer (Fin False 0) (Fin False 0) [] busy_context =
     Inr (Printf_final example_renderer [] busy_context) \<and>
   blend busy_context \<and> \<not> blend (Printf_final example_renderer [] busy_context) \<and>
   currentProgram busy_context = 7 \<and>
   currentProgram (Printf_final example_renderer [] busy_context) = 0 \<and>
   vertexArrayBinding busy_context = 9 \<and>
   vertexArrayBinding (Printf_final example_renderer [] busy_context) = 0 \<and>
   blendFunc busy_context = (GL_ONE, GL_ZERO) \<and>
   blendFunc (Printf_final example_renderer [] busy_context) =
     (GL_SRC_ALPHA, GL_ONE_MINUS_SRC_ALPHA)"
proof -
  have "Printf example_renderer (Fin False 0) (Fin False 0) [] busy_context =
     Inr (Printf_final example_renderer [] busy_context)"
    using Printf_in_table [of "[]" example_renderer "Fin False 0" "Fin False 0" busy_context]
    by simp
  then show ?thesis
    by (simp add: Printf_final_def busy_context_def gl_init_def)
qed

section \<open>Construction and teardown\<close>

lemma NewFont_shader_fields:
  "NewFont ext fontPath scale dpi width height g = Inr (fnt, g') \<Longrightarrow> vs fnt = 0 \<and> fs fnt = 0"
  by (auto simp: NewFont_def Let_def split: sum.splits prod.splits if_splits)

lemma Delete_effect:
  "issued (Delete this g) = issued g @
     [Shader_Delete (vs this), Shader_Delete (fs this), Program_Delete (program this),
      Buffer_Delete (vbo this), VertexArray_Delete (vao this)]"
  "shaders (Delete this g) = shaders g - {vs this} - {fs this}"
  "programs (Delete this g) = programs g - {program this}"
  "buffers (Delete this g) = buffers g - {vbo this}"
  "vertexArrays (Delete this g) = vertexArrays g - {vao this}"
  "textures (Delete this g) = textures g"
  by (simp_all add: Delete_def gl_def Let_def)

lemma createProgram_init:
  "createProgram gl_init = (3, snd (createProgram gl_init))"
  "shaders (snd (createProgram gl_init)) = {1, 2}"
  "programs (snd (createProgram gl_init)) = {3}"
  "nextName (snd (createProgram gl_init)) = 4"
  "vertexArrays (snd (createProgram gl_init)) = {}"
  "buffers (snd (createProgram gl_init)) = {}"
  "textures (snd (createProgram gl_init)) = {}"
  by (auto simp: createProgram_def NewShader_def NewProgram_def gl_def gl_init_def Let_def)


lemma example_loadFont: "loadFont example_extern fontPath = Inr example_font"
  by (simp add: loadFont_def example_extern_def)

lemma NewFont_example:
  "\<exists>fnt g. NewFont example_extern ''font.ttf'' 12 (Fin False 72) (Fin False 800)
             (Fin False 600) gl_init = Inr (fnt, g)
     \<and> vs fnt = 0 \<and> fs fnt = 0 \<and> program fnt = 3 \<and> vao fnt = 4 \<and> vbo fnt = 5
     \<and> shaders g = {1, 2} \<and> programs g = {3} \<and> vertexArrays g = {4} \<and> buffers g = {5}
     \<and> textures g = {6}"
proof -
  define coords where
    "coords = concat (map (glyph_quad example_extern example_font 12 (Fin False 800)
                (Fin False 600)) [0..<96])"
  from generateAtlas_result [OF example_allocation(1), of "Fin False 72" "Fin False 800"
      "Fin False 600"]
  obtain offs where
    a: "generateAtlas example_extern example_font 12 (Fin False 72) (Fin False 800)
          (Fin False 600) = Inr (coords, \<lparr>rect = atlas_rect example_extern example_font 12\<rparr>, offs)"
    unfolding coords_def by blast
  have "length coords = 384"
    unfolding coords_def by (simp add: length_concat_quads)
  then have ne: "coords \<noteq> []"
    by auto
  show ?thesis
    using ne
    by (simp add: NewFont_def example_loadFont a Let_def createProgram_def NewShader_def
          NewProgram_def gl_def gl_init_def insert_commute numeral_2_eq_2)
qed

text \<open>
  Claim C9 against the code. \<^verbatim>\<open>NewFont\<close> never stores the two shaders that
  \<^verbatim>\<open>createProgram\<close> made, so \<^verbatim>\<open>this.vs\<close> and \<^verbatim>\<open>this.fs\<close> are 0 and \<^verbatim>\<open>Delete\<close> deletes the
  shader 0 twice. In a fresh context the renderer's shaders are 1 and 2, its program 3,
  its vertex array 4, its buffer 5 and its texture 6; after \<^verbatim>\<open>Delete\<close> the program, the
  buffer and the vertex array are gone, the texture is still there, and so are both
  shaders.
\<close>

theorem Delete_leaves_shaders:
  "(case NewFont example_extern ''font.ttf'' 12 (Fin False 72) (Fin False 800) (Fin False 600)
           gl_init of
      Inl e \<Rightarrow> False
    | Inr (fnt, g) \<Rightarrow>
        vs fnt = 0 \<and> fs fnt = 0 \<and>
        shaders g = {1, 2} \<and> programs g = {3} \<and> vertexArrays g = {4} \<and>
        buffers g = {5} \<and> textures g = {6} \<and>
        issued (Delete fnt g) = issued g @
          [Shader_Delete 0, Shader_Delete 0, Program_Delete 3, Buffer_Delete 5,
           VertexArray_Delete 4] \<and>
        shaders (Delete fnt g) = {1, 2} \<and> programs (Delete fnt g) = {} \<and>
        vertexArrays (Delete fnt g) = {} \<and> buffers (Delete fnt g) = {} \<and>
        textures (Delete fnt g) = {6})"
proof -
  from NewFont_example obtain fnt g where
    r: "NewFont example_extern ''font.ttf'' 12 (Fin False 72) (Fin False 800)
             (Fin False 600) gl_init = Inr (fnt, g)"
    and f: "vs fnt = 0" "fs fnt = 0" "program fnt = 3" "vao fnt = 4" "vbo fnt = 5"
    and o: "shaders g = {1, 2}" "programs g = {3}" "vertexArrays g = {4}" "buffers g = {5}"
      "textures g = {6}"
    by blast
  show ?thesis
    unfolding r by (simp add: Delete_effect f o)
qed

section \<open>Facts of binary32 arithmetic\<close>

lemma pow2_powi: "pow2 e = 2 powi e"
  by (simp add: pow2_def power_int_def power_one_over inverse_eq_divide)

lemma pow2_pos: "0 < pow2 e"
  by (simp add: pow2_powi)

lemma pow2_add: "pow2 (a + b) = pow2 a * pow2 b"
  by (simp add: pow2_powi power_int_add)

lemma pow2_nat: "pow2 (int n) = 2 ^ n"
  by (simp add: pow2_def)

lemma pow2_neg: "pow2 (- int n) = 1 / 2 ^ n"
  by (simp add: pow2_powi power_int_minus field_simps)

lemma rne_of_int: "rne (of_int k) = k"
  by (simp add: rne_def)

lemma rne_ge: "of_int k \<le> x \<Longrightarrow> k \<le> rne x"
proof -
  assume "of_int k \<le> x"
  then have "k \<le> \<lfloor>x\<rfloor>" by (simp add: le_floor_iff)
  then show ?thesis
    by (auto simp: rne_def Let_def)
qed

lemma rne_le: "x \<le> of_int k \<Longrightarrow> rne x \<le> k"
proof -
  assume le: "x \<le> of_int k"
  show ?thesis
  proof (cases "x = of_int k")
    case True
    then show ?thesis by (simp add: rne_of_int)
  next
    case False
    with le have "x < of_int k" by simp
    then have "\<lfloor>x\<rfloor> < k" by (simp add: floor_less_iff)
    then show ?thesis
      by (auto simp: rne_def Let_def)
  qed
qed

lemma binade_of_int:
  assumes "0 < n"
  shows "binade (of_int n) = bitlen n - 1"
proof -
  have "2 ^ nat (bitlen n - 1) \<le> n"
    using bitlen_bounds [OF assms] by simp
  moreover have "1 \<le> bitlen n"
    using assms bitlen_eq_zero_iff [of n] bitlen_nonneg [of n] by linarith
  ultimately have "pow2 (bitlen n - 1) \<le> of_int n"
    by (simp add: pow2_def) 
  then show ?thesis
    using compute_bitlen [of 1] by (simp add: binade_def Let_def)
qed


lemma pow2_diff_nat: "pow2 (int c - int d) = 2 ^ c / 2 ^ d"
proof -
  have "pow2 (int c - int d) = pow2 (int c) * pow2 (- int d)"
    using pow2_add [of "int c" "- int d"] by simp
  then show ?thesis
    by (simp add: pow2_nat pow2_neg)
qed

lemma bitlen_le_24: "0 < K \<Longrightarrow> K < 2 ^ 24 \<Longrightarrow> bitlen K \<le> 24"
proof -
  assume K: "0 < K" "K < 2 ^ 24"
  have "(2 :: int) ^ nat (bitlen K - 1) < 2 ^ 24"
    using bitlen_bounds [OF K(1)] K(2) by linarith
  then have "nat (bitlen K - 1) < 24"
    using power_less_imp_less_exp [of "2 :: int" "nat (bitlen K - 1)" 24] by simp
  then show ?thesis by linarith
qed

lemma bitlen_ge_1: "0 < (n :: int) \<Longrightarrow> 1 \<le> bitlen n"
  using bitlen_eq_zero_iff [of n] bitlen_nonneg [of n] by linarith

lemma round_mag_0: "round_mag 0 = 0"
  by (simp add: round_mag_def rne_def)

text \<open>An integer with at most 24 significant bits is a binary32 value.\<close>

lemma round_mag_exact:
  assumes M: "0 < M" "bitlen M \<le> 24"
  shows "round_mag (of_int (M * 2 ^ c)) = of_int (M * 2 ^ c)"
proof -
  let ?N = "M * 2 ^ c"
  have N: "0 < ?N" using M by simp
  have b1: "1 \<le> bitlen M" using M by (intro bitlen_ge_1)
  define d where "d = nat (24 - bitlen M)"
  have d: "int d = 24 - bitlen M" using M by (simp add: d_def)
  have "bitlen ?N = bitlen M + int c"
    using M by simp
  then have e: "binade (of_int ?N) = bitlen M + int c - 1"
    using binade_of_int [OF N] by simp
  have "max (binade (of_int ?N)) (- 126) - 23 = int c - int d"
    using b1 d unfolding e by simp
  then have u: "ulp32 (of_int ?N) = 2 ^ c / 2 ^ d"
    by (simp only: ulp32_def pow2_diff_nat)
  have "rat_of_int ?N / (2 ^ c / 2 ^ d) = of_int (M * 2 ^ d)"
    by simp
  then have "rne (of_int ?N / ulp32 (of_int ?N)) = M * 2 ^ d"
    unfolding u by (simp only: rne_of_int)
  then show ?thesis
    unfolding round_mag_def u by simp
qed

text \<open>
  Rounding a natural number gives a natural number \<open>k\<close> that rounding leaves alone, is
  0 only for 0, and is at most the next power of two.
\<close>

lemma round_mag_int:
  assumes "0 \<le> n"
  shows "\<exists>k. round_mag (of_int n) = of_int k \<and> 0 \<le> k \<and> k \<le> 2 ^ nat (bitlen n)
           \<and> round_mag (of_int k) = of_int k \<and> (k = 0 \<longleftrightarrow> n = 0)"
proof (cases "n = 0")
  case True
  then show ?thesis
    using round_mag_0 by (intro exI [of _ 0]) simp
next
  case False
  with assms have n: "0 < n" by simp
  have bb: "2 ^ nat (bitlen n - 1) \<le> n" "n < 2 ^ nat (bitlen n)"
    using bitlen_bounds [OF n] by simp_all
  have b1: "1 \<le> bitlen n" using n by (rule bitlen_ge_1)
  show ?thesis
  proof (cases "bitlen n \<le> 24")
    case True
    have "round_mag (of_int n) = of_int n"
      using round_mag_exact [OF n True, of 0] by simp
    then show ?thesis
      using n bb by (intro exI [of _ n]) simp
  next
    case False
    define c where "c = nat (bitlen n - 24)"
    have c: "int c = bitlen n - 24" "0 < c" using False by (simp_all add: c_def)
    have bl: "nat (bitlen n - 1) = 23 + c" "nat (bitlen n) = 24 + c"
      using c by linarith+
    have "max (binade (of_int n)) (- 126) - 23 = int c"
      using binade_of_int [OF n] c b1 by simp
    then have u: "ulp32 (of_int n) = 2 ^ c"
      by (simp only: ulp32_def pow2_nat)
    define K where "K = rne (of_int n / 2 ^ c)"
    have r: "round_mag (of_int n) = of_int (K * 2 ^ c)"
      by (simp add: round_mag_def u K_def)
    have "(2 :: int) ^ 23 * 2 ^ c \<le> n"
      using bb(1) unfolding bl by (simp add: power_add)
    then have "rat_of_int (2 ^ 23 * 2 ^ c) \<le> rat_of_int n"
      by (rule iffD2 [OF of_int_le_iff])
    then have "rat_of_int (2 ^ 23) * 2 ^ c \<le> of_int n"
      by simp
    then have "rat_of_int (2 ^ 23) \<le> of_int n / 2 ^ c"
      by (simp add: field_simps)
    then have lo: "2 ^ 23 \<le> K"
      unfolding K_def by (rule rne_ge)
    have "n \<le> (2 :: int) ^ 24 * 2 ^ c"
      using bb(2) unfolding bl by (simp add: power_add)
    then have "rat_of_int n \<le> rat_of_int (2 ^ 24 * 2 ^ c)"
      by (rule iffD2 [OF of_int_le_iff])
    then have "rat_of_int n \<le> of_int (2 ^ 24) * 2 ^ c"
      by simp
    then have "of_int n / 2 ^ c \<le> rat_of_int (2 ^ 24)"
      by (simp add: field_simps)
    then have hi: "K \<le> 2 ^ 24"
      unfolding K_def by (rule rne_le)
    have bound: "K * 2 ^ c \<le> 2 ^ nat (bitlen n)"
      using hi unfolding bl by (simp add: power_add)
    have pos: "0 < K * 2 ^ c" using lo by simp
    have "round_mag (of_int (K * 2 ^ c)) = of_int (K * 2 ^ c)"
    proof (cases "K < 2 ^ 24")
      case True
      have "bitlen K \<le> 24"
        using lo True by (intro bitlen_le_24) simp_all
      then show ?thesis
        using lo by (intro round_mag_exact) simp_all
    next
      case False
      with hi have K: "K = 2 ^ 23 * 2" by simp
      have "bitlen ((2 :: int) ^ 23) \<le> 24"
        by (intro bitlen_le_24) simp_all
      then have "round_mag (of_int (2 ^ 23 * 2 ^ Suc c)) = of_int (2 ^ 23 * 2 ^ Suc c)"
        by (intro round_mag_exact) simp_all
      then show ?thesis
        unfolding K by (simp add: mult.assoc)
    qed
    moreover have "0 \<le> K * 2 ^ c" "K * 2 ^ c \<noteq> 0"
      using lo by auto
    ultimately show ?thesis
      using r bound n by (intro exI [of _ "K * 2 ^ c"]) (simp only: simp_thms)
  qed
qed

lemma bitlen_le_32: "0 < (n :: int) \<Longrightarrow> n < 2 ^ 32 \<Longrightarrow> nat (bitlen n) \<le> 32"
proof -
  assume n: "0 < n" "n < 2 ^ 32"
  have "(2 :: int) ^ nat (bitlen n - 1) < 2 ^ 32"
    using bitlen_bounds [OF n(1)] n(2) by linarith
  then have "nat (bitlen n - 1) < 32"
    using power_less_imp_less_exp [of "2 :: int" "nat (bitlen n - 1)" 32] by simp
  then show ?thesis by linarith
qed

lemma rne_nonneg: "0 \<le> x \<Longrightarrow> 0 \<le> rne x"
  using rne_ge [of 0 x] by simp

lemma ulp32_pos: "0 < ulp32 q"
  by (simp add: ulp32_def pow2_pos)

lemma round_mag_nonneg: "0 \<le> q \<Longrightarrow> 0 \<le> round_mag q"
  unfolding round_mag_def
  using ulp32_pos [of q] by (intro mult_nonneg_nonneg) (simp_all add: rne_nonneg)

lemma pow2_128: "pow2 128 = 2 ^ 128"
  using pow2_nat [of 128] by simp

text \<open>The conversion of an integer below \<open>2^32\<close> in absolute value is finite and exact to 24 bits.\<close>

lemma float32_of_int_shape:
  assumes "\<bar>i\<bar> < 2 ^ 32"
  shows "\<exists>k. float32_of_int i = Fin (i < 0) (of_int k) \<and> 0 \<le> k \<and> k \<le> 2 ^ 32
           \<and> round_mag (of_int k) = of_int k \<and> (k = 0 \<longleftrightarrow> i = 0)"
proof -
  from round_mag_int [of "\<bar>i\<bar>"] obtain k where
    k: "round_mag (of_int \<bar>i\<bar>) = of_int k" "0 \<le> k" "k \<le> 2 ^ nat (bitlen \<bar>i\<bar>)"
      "round_mag (of_int k) = of_int k" "k = 0 \<longleftrightarrow> \<bar>i\<bar> = 0"
    by auto
  have "(2 :: int) ^ nat (bitlen \<bar>i\<bar>) \<le> 2 ^ 32"
  proof (cases "i = 0")
    case True
    then show ?thesis by simp
  next
    case False
    then have "nat (bitlen \<bar>i\<bar>) \<le> 32"
      using assms by (intro bitlen_le_32) simp_all
    then show ?thesis
      by (intro power_increasing) simp_all
  qed
  with k(3) have le: "k \<le> 2 ^ 32" by linarith
  then have "rat_of_int k \<le> rat_of_int (2 ^ 32)"
    by (rule iffD2 [OF of_int_le_iff])
  then have "\<not> pow2 128 \<le> rat_of_int k"
    unfolding pow2_128 by simp
  then have "float32_of_int i = Fin (i < 0) (of_int k)"
    using k(1) by (simp add: float32_of_int_def mk32_def Let_def del: of_int_abs)
  then show ?thesis
    using k le by auto
qed

lemma fadd_zero_of_int:
  assumes "\<bar>i\<bar> < 2 ^ 32"
  shows "fadd (Fin False 0) (float32_of_int i) = float32_of_int i"
proof -
  from float32_of_int_shape [OF assms] obtain k where
    k: "float32_of_int i = Fin (i < 0) (of_int k)" "0 \<le> k" "k \<le> 2 ^ 32"
      "round_mag (of_int k) = of_int k" "k = 0 \<longleftrightarrow> i = 0"
    by blast
  show ?thesis
  proof (cases "i = 0")
    case True
    then show ?thesis
      using k by (simp add: signed_def)
  next
    case False
    then have pos: "0 < k" using k by linarith
    have "rat_of_int k \<le> rat_of_int (2 ^ 32)"
      using k(3) by (rule iffD2 [OF of_int_le_iff])
    then have nov: "\<not> pow2 128 \<le> rat_of_int k"
      unfolding pow2_128 by simp
    have v: "signed (i < 0) (of_int k) \<noteq> 0" "(signed (i < 0) (rat_of_int k) < 0) = (i < 0)"
      "\<bar>signed (i < 0) (rat_of_int k)\<bar> = of_int k"
      using pos by (auto simp: signed_def)
    show ?thesis
      unfolding k(1) using v nov k(4) by (simp add: signed_def mk32_def Let_def)
  qed
qed

lemma fle_zero_mk32: "0 \<le> q \<Longrightarrow> fle (Fin False 0) (mk32 False q)"
  using round_mag_nonneg [of q] by (simp add: mk32_def Let_def signed_def)

lemma advance_nonneg:
  assumes "0 \<le> i" "i < 2 ^ 32" "finite_nonneg sx"
  shows "fle (Fin False 0) (fmul (float32_of_int i) sx)"
proof -
  from assms(3) obtain m where sx: "sx = Fin False m" "0 \<le> m"
    by (auto simp: finite_nonneg_def split: ieee.splits)
  from float32_of_int_shape [of i] assms obtain k where
    k: "float32_of_int i = Fin False (of_int k)" "0 \<le> k"
    by auto
  have "0 \<le> rat_of_int k * m"
    using k(2) sx(2) by simp
  then show ?thesis
    unfolding k(1) sx(1) by (simp add: fle_zero_mk32)
qed

section \<open>The advance table\<close>

lemma atlas_offsets_nth:
  assumes "j < 96"
  shows "atlas_offsets ext font scale dpi width height ! j =
         advance_of font scale (clip_sx width) (word_of_int (32 + int j))"
    and "length (atlas_offsets ext font scale dpi width height) = 96"
  using generateAtlas_with_memory [of ext font scale dpi width height] assms
  by (auto simp: atlas_offsets_def)

lemma sint_bound_32: "\<bar>sint (a :: 32 word)\<bar> < 2 ^ 32"
  using sint_ge [of a] sint_lt [of a] by simp

text \<open>
  Claim C4, as amended. For every character \<open>ch\<close> of 32..127 the table has 96 entries and
  its entry \<open>ch - 32\<close> is the horizontal advance of \<open>ch\<close> at the given scale, converted to
  \<^verbatim>\<open>float32\<close>, times \<open>sx = 2 / width\<close>; the entry is not negative when the advance is
  not negative and \<open>sx\<close> is finite with a clear sign bit.
\<close>

theorem advance_table_entries:
  "32 \<le> sint ch \<Longrightarrow> sint ch \<le> 127 \<Longrightarrow>
   length (atlas_offsets ext font scale dpi width height) = 96 \<and>
   atlas_offsets ext font scale dpi width height ! nat (sint ch - 32) =
     fmul (float32_of_int (sint (AdvanceWidth (font_HMetric font scale (font_Index font ch)))))
       (fdiv (Fin False 2) width) \<and>
   (0 \<le> sint (AdvanceWidth (font_HMetric font scale (font_Index font ch))) \<and>
    finite_nonneg (fdiv (Fin False 2) width) \<longrightarrow>
      fle (Fin False 0) (atlas_offsets ext font scale dpi width height ! nat (sint ch - 32)))"
proof -
  assume ch: "32 \<le> sint ch" "sint ch \<le> 127"
  let ?a = "sint (AdvanceWidth (font_HMetric font scale (font_Index font ch)))"
  have j: "nat (sint ch - 32) < 96"
    using ch by simp
  have "word_of_int (32 + int (nat (sint ch - 32))) = ch"
    using ch by simp
  then have e: "atlas_offsets ext font scale dpi width height ! nat (sint ch - 32) =
      fmul (float32_of_int ?a) (fdiv (Fin False 2) width)"
    using atlas_offsets_nth(1) [OF j, of ext font scale dpi width height]
    by (simp add: advance_of_def clip_sx_def)
  have "fle (Fin False 0) (fmul (float32_of_int ?a) (fdiv (Fin False 2) width))"
    if "0 \<le> ?a" "finite_nonneg (fdiv (Fin False 2) width)"
    using that sint_bound_32 [of "AdvanceWidth (font_HMetric font scale (font_Index font ch))"]
    by (intro advance_nonneg) simp_all
  then show ?thesis
    using e atlas_offsets_nth(2) [OF j] by simp
qed

lemma example_sx: "finite_nonneg (fdiv (Fin False 2) (Fin False 800))"
  by code_simp

theorem advance_table_entries_witness:
  "32 \<le> sint (65 :: rune) \<and> sint (65 :: rune) \<le> 127 \<and>
   0 \<le> sint (AdvanceWidth (font_HMetric example_font 12 (font_Index example_font 65))) \<and>
   finite_nonneg (fdiv (Fin False 2) (Fin False 800)) \<and>
   atlas_offsets example_extern example_font 12 (Fin False 72) (Fin False 800) (Fin False 600) !
       nat (sint (65 :: rune) - 32) =
     fmul (float32_of_int
             (sint (AdvanceWidth (font_HMetric example_font 12 (font_Index example_font 65)))))
       (fdiv (Fin False 2) (Fin False 800)) \<and>
   fle (Fin False 0)
     (atlas_offsets example_extern example_font 12 (Fin False 72) (Fin False 800)
        (Fin False 600) ! nat (sint (65 :: rune) - 32))"
proof -
  have a: "0 \<le> sint (AdvanceWidth (font_HMetric example_font 12 (font_Index example_font 65)))"
    by (simp add: example_font_def)
  have c: "32 \<le> sint (65 :: rune)" "sint (65 :: rune) \<le> 127"
    by simp_all
  from advance_table_entries [OF c, of example_extern example_font 12 "Fin False 72"
      "Fin False 800" "Fin False 600"] a example_sx c
  show ?thesis
    by blast
qed

text \<open>
  Claim C4 as stated fails for a negative viewport width: with the width \<open>-2\<close> and the
  advance 8 the entry of the character 65 is \<open>-8\<close>.
\<close>

lemma negative_entry:
  "advance_of example_font 12 (clip_sx (Fin True 2)) 65 = Fin True 8"
  by code_simp

theorem advance_negative_counterexample:
  "atlas_offsets example_extern example_font 12 (Fin False 72) (Fin True 2) (Fin False 600) ! 33 =
     Fin True 8 \<and>
   \<not> fle (Fin False 0) (Fin True 8)"
proof -
  have "atlas_offsets example_extern example_font 12 (Fin False 72) (Fin True 2)
          (Fin False 600) ! 33 =
        advance_of example_font 12 (clip_sx (Fin True 2)) (word_of_int (32 + int 33))"
    by (rule atlas_offsets_nth) simp
  then show ?thesis
    using negative_entry by (simp add: signed_def)
qed

section \<open>The coordinates of a quad\<close>

lemma atlas_image_eq:
  "atlas_image ext font scale dpi width height = \<lparr>rect = atlas_rect ext font scale\<rparr>"
  using generateAtlas_with_memory [of ext font scale dpi width height]
  by (auto simp: atlas_image_def)

lemma cell_gh_zero: "fadd (Fin False 0) (cell_gh font scale) = cell_gh font scale"
  unfolding cell_gh_def by (rule fadd_zero_of_int) (rule sint_bound_32)

lemma glyph_quad_eq:
  "glyph_quad ext font scale width height i =
     [Vector4 (Fin True 1) (Fin False 1)
        (fdiv (glyph_gx (cell_gw font scale) (Fin False 0) i) (tex_width ext font scale))
        (fdiv (Fin False 0) (tex_height ext font scale)),
      Vector4 (fadd (Fin True 1) (clip_w font scale width)) (Fin False 1)
        (fdiv (fadd (glyph_gx (cell_gw font scale) (Fin False 0) i) (cell_gw font scale))
           (tex_width ext font scale))
        (fdiv (Fin False 0) (tex_height ext font scale)),
      Vector4 (Fin True 1) (fsub (Fin False 1) (clip_h font scale height))
        (fdiv (glyph_gx (cell_gw font scale) (Fin False 0) i) (tex_width ext font scale))
        (fdiv (cell_gh font scale) (tex_height ext font scale)),
      Vector4 (fadd (Fin True 1) (clip_w font scale width))
        (fsub (Fin False 1) (clip_h font scale height))
        (fdiv (fadd (glyph_gx (cell_gw font scale) (Fin False 0) i) (cell_gw font scale))
           (tex_width ext font scale))
        (fdiv (cell_gh font scale) (tex_height ext font scale))]"
  by (simp add: glyph_quad_def quad_def Let_def cell_gh_zero)

lemma glyph_quad_tex:
  "k < 4 \<Longrightarrow>
   vz (glyph_quad ext font scale width height i ! k) =
     vz (glyph_quad ext font scale width' height' i ! k) \<and>
   vw (glyph_quad ext font scale width height i ! k) =
     vw (glyph_quad ext font scale width' height' i ! k)"
proof -
  assume "k < 4"
  then consider "k = 0" | "k = 1" | "k = 2" | "k = 3"
    by linarith
  then show ?thesis
    by cases (simp_all add: glyph_quad_eq)
qed

text \<open>
  Claim C3. The four vertices of the glyph \<open>i\<close> are, in this order, the corners
  \<open>(-1, 1)\<close>, \<open>(-1 + w, 1)\<close>, \<open>(-1, 1 - h)\<close> and \<open>(-1 + w, 1 - h)\<close> with
  \<open>w = gw * (2 / width)\<close> and \<open>h = gh * (2 / height)\<close>, and their texture coordinates are
  \<open>gx\<close>, 0, \<open>gx + gw\<close> and \<open>gh\<close> divided by the width and the height of the bitmap. The
  viewport enters through \<open>w\<close> and \<open>h\<close> only: with another viewport every texture
  coordinate is the same.
\<close>

theorem quad_coordinates:
  fixes ext font scale dpi width height i
  defines "gw \<equiv> cell_gw font scale"
    and "gh \<equiv> cell_gh font scale"
    and "w \<equiv> fmul (cell_gw font scale) (fdiv (Fin False 2) width)"
    and "h \<equiv> fmul (cell_gh font scale) (fdiv (Fin False 2) height)"
    and "tw \<equiv> float32_of_int (Dx (rect (atlas_image ext font scale dpi width height)))"
    and "th \<equiv> float32_of_int (Dy (rect (atlas_image ext font scale dpi width height)))"
    and "gx \<equiv> glyph_gx (cell_gw font scale) (Fin False 0) i"
  assumes "i < 96"
  shows "take 4 (drop (4 * i) (atlas_verts ext font scale dpi width height)) =
           [Vector4 (Fin True 1) (Fin False 1) (fdiv gx tw) (fdiv (Fin False 0) th),
            Vector4 (fadd (Fin True 1) w) (Fin False 1) (fdiv (fadd gx gw) tw)
              (fdiv (Fin False 0) th),
            Vector4 (Fin True 1) (fsub (Fin False 1) h) (fdiv gx tw) (fdiv gh th),
            Vector4 (fadd (Fin True 1) w) (fsub (Fin False 1) h) (fdiv (fadd gx gw) tw)
              (fdiv gh th)] \<and>
         (\<forall>k<4. vz (atlas_verts ext font scale dpi width height ! (4 * i + k)) =
                  vz (atlas_verts ext font scale dpi width' height' ! (4 * i + k)) \<and>
                vw (atlas_verts ext font scale dpi width height ! (4 * i + k)) =
                  vw (atlas_verts ext font scale dpi width' height' ! (4 * i + k)))"
proof -
  have "take 4 (drop (4 * i) (atlas_verts ext font scale dpi width height)) =
        glyph_quad ext font scale width height i"
    using assms(8) by (simp add: atlas_verts_eq slice_concat_quads)
  then have "take 4 (drop (4 * i) (atlas_verts ext font scale dpi width height)) =
           [Vector4 (Fin True 1) (Fin False 1) (fdiv gx tw) (fdiv (Fin False 0) th),
            Vector4 (fadd (Fin True 1) w) (Fin False 1) (fdiv (fadd gx gw) tw)
              (fdiv (Fin False 0) th),
            Vector4 (Fin True 1) (fsub (Fin False 1) h) (fdiv gx tw) (fdiv gh th),
            Vector4 (fadd (Fin True 1) w) (fsub (Fin False 1) h) (fdiv (fadd gx gw) tw)
              (fdiv gh th)]"
    unfolding glyph_quad_eq gw_def gh_def w_def h_def tw_def th_def gx_def atlas_image_eq
    by (simp add: clip_w_def clip_h_def clip_sx_def clip_sy_def tex_width_def tex_height_def)
  moreover have "\<forall>k<4. vz (atlas_verts ext font scale dpi width height ! (4 * i + k)) =
                  vz (atlas_verts ext font scale dpi width' height' ! (4 * i + k)) \<and>
                vw (atlas_verts ext font scale dpi width height ! (4 * i + k)) =
                  vw (atlas_verts ext font scale dpi width' height' ! (4 * i + k))"
    using assms(8) by (simp add: atlas_verts_nth glyph_quad_tex)
  ultimately show ?thesis by blast
qed

theorem quad_coordinates_witness:
  "(1 :: nat) < 96 \<and> (2 :: nat) < 4 \<and>
   take 4 (drop (4 * 1)
     (atlas_verts example_extern example_font 12 (Fin False 72) (Fin False 800) (Fin False 600))) =
     [Vector4 (Fin True 1) (Fin False 1)
        (fdiv (glyph_gx (cell_gw example_font 12) (Fin False 0) 1)
           (float32_of_int (Dx (rect (atlas_image example_extern example_font 12 (Fin False 72)
              (Fin False 800) (Fin False 600))))))
        (fdiv (Fin False 0)
           (float32_of_int (Dy (rect (atlas_image example_extern example_font 12 (Fin False 72)
              (Fin False 800) (Fin False 600)))))),
      Vector4 (fadd (Fin True 1) (fmul (cell_gw example_font 12) (fdiv (Fin False 2) (Fin False 800))))
        (Fin False 1)
        (fdiv (fadd (glyph_gx (cell_gw example_font 12) (Fin False 0) 1) (cell_gw example_font 12))
           (float32_of_int (Dx (rect (atlas_image example_extern example_font 12 (Fin False 72)
              (Fin False 800) (Fin False 600))))))
        (fdiv (Fin False 0)
           (float32_of_int (Dy (rect (atlas_image example_extern example_font 12 (Fin False 72)
              (Fin False 800) (Fin False 600)))))),
      Vector4 (Fin True 1)
        (fsub (Fin False 1) (fmul (cell_gh example_font 12) (fdiv (Fin False 2) (Fin False 600))))
        (fdiv (glyph_gx (cell_gw example_font 12) (Fin False 0) 1)
           (float32_of_int (Dx (rect (atlas_image example_extern example_font 12 (Fin False 72)
              (Fin False 800) (Fin False 600))))))
        (fdiv (cell_gh example_font 12)
           (float32_of_int (Dy (rect (atlas_image example_extern example_font 12 (Fin False 72)
              (Fin False 800) (Fin False 600)))))),
      Vector4 (fadd (Fin True 1) (fmul (cell_gw example_font 12) (fdiv (Fin False 2) (Fin False 800))))
        (fsub (Fin False 1) (fmul (cell_gh example_font 12) (fdiv (Fin False 2) (Fin False 600))))
        (fdiv (fadd (glyph_gx (cell_gw example_font 12) (Fin False 0) 1) (cell_gw example_font 12))
           (float32_of_int (Dx (rect (atlas_image example_extern example_font 12 (Fin False 72)
              (Fin False 800) (Fin False 600))))))
        (fdiv (cell_gh example_font 12)
           (float32_of_int (Dy (rect (atlas_image example_extern example_font 12 (Fin False 72)
              (Fin False 800) (Fin False 600))))))] \<and>
   vz (atlas_verts example_extern example_font 12 (Fin False 72) (Fin False 800) (Fin False 600) !
         (4 * 1 + 2)) =
     vz (atlas_verts example_extern example_font 12 (Fin False 72) (Fin False 1024)
           (Fin False 768) ! (4 * 1 + 2)) \<and>
   vw (atlas_verts example_extern example_font 12 (Fin False 72) (Fin False 800) (Fin False 600) !
         (4 * 1 + 2)) =
     vw (atlas_verts example_extern example_font 12 (Fin False 72) (Fin False 1024)
           (Fin False 768) ! (4 * 1 + 2))"
proof -
  have i: "(1 :: nat) < 96" and k: "(2 :: nat) < 4"
    by simp_all
  from quad_coordinates [OF i, of example_extern example_font 12 "Fin False 72" "Fin False 800"
      "Fin False 600" "Fin False 1024" "Fin False 768"] i k
  show ?thesis
    by blast
qed

section \<open>The size of the bitmap\<close>









end
